theory Spec2Isabelle
  imports Complex_Main
begin

section \<open>JavaScript values and the string primitives the parsers use\<close>

text \<open>
  Strings are lists of code units; the model covers code units below 256, one
  \<^typ>\<open>char\<close> each. A read that JavaScript answers with \<open>undefined\<close> (an array
  index or a string index out of range) is the value \<open>Undefined\<close>.
\<close>

datatype jsval = Undefined | Null | Str string

text \<open>
  Residue numbers: the result of \<open>parseInt\<close> (an integer or \<open>NaN\<close>), or the
  \<open>null\<close> that \<open>nextResNum\<close> starts with. The model keeps exact integers; the source
  keeps doubles, which hold every integer of magnitude up to \<open>2^53\<close> exactly and round
  beyond. The two agree on the numbers that \<open>safeInt\<close> (below) admits, and a statement
  about the value of a parsed or incremented number assumes \<open>safeInt\<close> of it.
\<close>

datatype jsint = JNull | JNaN | JInt int

text \<open>
  The result of \<open>parseFloat\<close>: the exact value of the decimal literal that was read.
  The source's rounding to a binary double, its overflow to \<open>Infinity\<close> and its underflow
  to \<open>0\<close> are not modelled, and \<open>-0\<close> is \<open>0\<close>; the statements below say which text
  is parsed and when the result is \<open>NaN\<close>, and rest on a value only where the literal is
  short and exact.
\<close>

datatype jsnum = NaN | PosInf | NegInf | Fin rat

definition isWhitespace :: "char \<Rightarrow> bool" where
  "isWhitespace c = (c \<in> set [CHR 0x09, CHR 0x0A, CHR 0x0B, CHR 0x0C, CHR 0x0D, CHR 0x20, CHR 0xA0])"

definition isDigit :: "char \<Rightarrow> bool" where
  "isDigit c = (c \<in> set ''0123456789'')"

definition isHexDigit :: "char \<Rightarrow> bool" where
  "isHexDigit c = (c \<in> set ''0123456789abcdefABCDEF'')"

text \<open>The value of a digit: its place among the digits.\<close>

fun indexOf :: "char \<Rightarrow> string \<Rightarrow> int" where
  "indexOf c [] = 0"
| "indexOf c (x # xs) = (if c = x then 0 else 1 + indexOf c xs)"

definition digitVal :: "char \<Rightarrow> int" where
  "digitVal c =
     (if c \<in> set ''ABCDEF'' then 10 + indexOf c ''ABCDEF'' else indexOf c ''0123456789abcdef'')"

definition digitsVal :: "int \<Rightarrow> string \<Rightarrow> int" where
  "digitsVal radix ds = foldl (\<lambda>a c. radix * a + digitVal c) 0 ds"

text \<open>\<open>s.substr(start, len)\<close>, \<open>s.substring(start)\<close>, \<open>s[i]\<close>, \<open>s.startsWith(p)\<close>.\<close>

definition substr :: "string \<Rightarrow> nat \<Rightarrow> nat \<Rightarrow> string" where
  "substr s start len = take len (drop start s)"

definition charAt :: "string \<Rightarrow> nat \<Rightarrow> jsval" where
  "charAt s i = (if i < length s then Str [s ! i] else Undefined)"

definition startsWith :: "string \<Rightarrow> string \<Rightarrow> bool" where
  "startsWith s p = (take (length p) s = p)"

text \<open>\<open>s.includes(p)\<close>: \<open>p\<close> occurs somewhere in \<open>s\<close>.\<close>

fun js_includes :: "string \<Rightarrow> string \<Rightarrow> bool" where
  "js_includes [] p = (p = [])"
| "js_includes (c # cs) p = (startsWith (c # cs) p \<or> js_includes cs p)"

text \<open>\<open>s.replace(p, r)\<close> with a string pattern: the first occurrence only.\<close>

fun replaceFirst :: "string \<Rightarrow> string \<Rightarrow> string \<Rightarrow> string" where
  "replaceFirst [] p r = (if p = [] then r else [])"
| "replaceFirst (c # cs) p r =
     (if startsWith (c # cs) p then r @ drop (length p) (c # cs)
      else c # replaceFirst cs p r)"

text \<open>lodash \<open>_.trim\<close>: leading and trailing whitespace removed.\<close>

definition trim :: "string \<Rightarrow> string" where
  "trim s = rev (dropWhile isWhitespace (rev (dropWhile isWhitespace s)))"

text \<open>
  \<open>parseInt(v)\<close> with no radix: leading whitespace, a sign, a \<open>0x\<close> prefix (radix 16),
  then the longest run of digits; \<open>NaN\<close> when that run is empty. \<open>undefined\<close> and
  \<open>null\<close> are read as the strings of their names, which hold no digit.
\<close>

definition parseIntStr :: "string \<Rightarrow> jsint" where
  "parseIntStr s =
     (let s1 = dropWhile isWhitespace s;
          neg = (take 1 s1 = ''-'');
          s2 = (if take 1 s1 = ''-'' \<or> take 1 s1 = ''+'' then drop 1 s1 else s1);
          hex = (take 2 s2 = ''0x'' \<or> take 2 s2 = ''0X'');
          s3 = (if hex then drop 2 s2 else s2);
          z = (if hex then takeWhile isHexDigit s3 else takeWhile isDigit s3);
          n = digitsVal (if hex then 16 else 10) z
      in if z = [] then JNaN else JInt (if neg then - n else n))"

fun parseInt :: "jsval \<Rightarrow> jsint" where
  "parseInt (Str s) = parseIntStr s"
| "parseInt Undefined = JNaN"
| "parseInt Null = JNaN"

text \<open>
  \<open>parseFloat(v)\<close>: leading whitespace, a sign, then \<open>Infinity\<close> or the longest
  prefix that is a decimal literal (digits, a fraction, an exponent that has at least one
  digit); \<open>NaN\<close> when there is neither an integer nor a fraction digit.
\<close>

definition scale10 :: "int \<Rightarrow> int \<Rightarrow> rat" where
  "scale10 m e = (if 0 \<le> e then of_int m * 10 ^ nat e else of_int m / 10 ^ nat (- e))"

definition parseFloatStr :: "string \<Rightarrow> jsnum" where
  "parseFloatStr s =
     (let s1 = dropWhile isWhitespace s;
          neg = (take 1 s1 = ''-'');
          s2 = (if take 1 s1 = ''-'' \<or> take 1 s1 = ''+'' then drop 1 s1 else s1);
          ip = takeWhile isDigit s2;
          r1 = dropWhile isDigit s2;
          dot = (take 1 r1 = ''.'');
          fp = (if dot then takeWhile isDigit (drop 1 r1) else []);
          r2 = (if dot then dropWhile isDigit (drop 1 r1) else r1);
          r3 = drop 1 r2;
          eneg = (take 1 r3 = ''-'');
          r4 = (if take 1 r3 = ''-'' \<or> take 1 r3 = ''+'' then drop 1 r3 else r3);
          ed = (if take 1 r2 = ''e'' \<or> take 1 r2 = ''E'' then takeWhile isDigit r4 else []);
          ex = (if eneg then - digitsVal 10 ed else digitsVal 10 ed);
          m = digitsVal 10 (ip @ fp)
      in if startsWith s2 ''Infinity'' then (if neg then NegInf else PosInf)
         else if ip = [] \<and> fp = [] then NaN
         else Fin (scale10 (if neg then - m else m) (ex - int (length fp))))"

fun parseFloat :: "jsval \<Rightarrow> jsnum" where
  "parseFloat (Str s) = parseFloatStr s"
| "parseFloat Undefined = NaN"
| "parseFloat Null = NaN"

text \<open>\<open>deleteNumbers\<close>: \<open>text.replace(/\d+/, '')\<close>, the first run of digits removed.\<close>

definition deleteNumbers :: "string \<Rightarrow> string" where
  "deleteNumbers text =
     takeWhile (\<lambda>c. \<not> isDigit c) text @ dropWhile isDigit (dropWhile (\<lambda>c. \<not> isDigit c) text)"

text \<open>
  \<open>removeQuotes\<close>: a pair of equal quote characters at the two ends is cut off.
  Reading \<open>s.length\<close> of \<open>undefined\<close> or \<open>null\<close> throws a TypeError: the result is
  \<open>None\<close> then.
\<close>

definition removeQuotesStr :: "string \<Rightarrow> string" where
  "removeQuotesStr s =
     (if charAt s 0 = Str [CHR 0x22] \<and> charAt s (length s - 1) = Str [CHR 0x22]
        then take (length s - 1 - 1) (drop 1 s)
      else if charAt s 0 = Str [CHR 0x27] \<and> charAt s (length s - 1) = Str [CHR 0x27]
        then take (length s - 1 - 1) (drop 1 s)
      else s)"

fun removeQuotes :: "jsval \<Rightarrow> string option" where
  "removeQuotes (Str s) = Some (removeQuotesStr s)"
| "removeQuotes Undefined = None"
| "removeQuotes Null = None"

text \<open>\<open>text.split(/\r?\n/)\<close>: one line more than there are line feeds, never none.\<close>

fun splitLinesFrom :: "string \<Rightarrow> string \<Rightarrow> string list" where
  "splitLinesFrom acc [] = [rev acc]"
| "splitLinesFrom acc (c # cs) =
     (if c = CHR 0x0A
      then rev (case acc of [] \<Rightarrow> [] | a # acc' \<Rightarrow> if a = CHR 0x0D then acc' else a # acc')
             # splitLinesFrom [] cs
      else splitLinesFrom (c # acc) cs)"

definition splitLines :: "string \<Rightarrow> string list" where
  "splitLines text = splitLinesFrom [] text"

text \<open>\<open>line.split(/[ ,]+/)\<close>: cut at every run of spaces and commas.\<close>

definition isSep :: "char \<Rightarrow> bool" where
  "isSep c = (c = CHR '' '' \<or> c = CHR '','')"

function splitTokensFrom :: "string \<Rightarrow> string \<Rightarrow> string list" where
  "splitTokensFrom acc [] = [rev acc]"
| "splitTokensFrom acc (c # cs) =
     (if isSep c then rev acc # splitTokensFrom [] (dropWhile isSep cs)
      else splitTokensFrom (c # acc) cs)"
  by pat_completeness auto
termination
  by (relation "measure (\<lambda>(acc, s). length s)")
     (auto simp: less_Suc_eq_le length_dropWhile_le)

definition splitTokens :: "string \<Rightarrow> string list" where
  "splitTokens line = splitTokensFrom [] line"

text \<open>\<open>tokens[i]\<close>.\<close>

definition tok :: "string list \<Rightarrow> nat \<Rightarrow> jsval" where
  "tok tokens i = (if i < length tokens then Str (tokens ! i) else Undefined)"

text \<open>The decimal text of a number in a template string or a concatenation.\<close>

fun showNat :: "nat \<Rightarrow> string" where
  "showNat n =
     (if n < 10 then [''0123456789'' ! n]
      else showNat (n div 10) @ [''0123456789'' ! (n mod 10)])"

section \<open>The structure store\<close>

text \<open>
  The store (\<open>soup\<close>) is implemented outside the parser's file. The parser hands it
  atoms of eleven fields and reads residues back through a cursor.
\<close>

record atom =
  a_x :: jsnum
  a_y :: jsnum
  a_z :: jsnum
  a_bfactor :: jsnum
  a_alt :: jsval
  a_atomType :: string
  a_elem :: jsval
  a_resType :: jsval
  a_resNum :: jsint
  a_insCode :: jsval
  a_chain :: jsval

record residue =
  r_iStructure :: nat
  r_chain :: jsval
  r_resNum :: jsint
  r_insCode :: jsval
  r_ss :: string

record soup =
  structures :: "(string \<times> string) list"
  atoms :: "atom list"
  residues :: "residue list"

text \<open>\<open>a === b\<close> and \<open>a <= b\<close> on numbers: \<open>NaN\<close> equals nothing, \<open>null\<close> counts as 0.\<close>

fun strictEq :: "jsint \<Rightarrow> jsint \<Rightarrow> bool" where
  "strictEq JNaN b = False"
| "strictEq a JNaN = False"
| "strictEq a b = (a = b)"

fun toNumber :: "jsint \<Rightarrow> int option" where
  "toNumber JNull = Some 0"
| "toNumber JNaN = None"
| "toNumber (JInt n) = Some n"

definition jsLe :: "jsint \<Rightarrow> jsint \<Rightarrow> bool" where
  "jsLe a b = (case (toNumber a, toNumber b) of (Some x, Some y) \<Rightarrow> x \<le> y | _ \<Rightarrow> False)"

text \<open>\<open>n += 1\<close>.\<close>

fun jsInc :: "jsint \<Rightarrow> jsint" where
  "jsInc JNull = JInt 1"
| "jsInc JNaN = JNaN"
| "jsInc (JInt n) = JInt (n + 1)"

text \<open>
  The numbers on which the exact integers of the model are the doubles of the source:
  \<open>null\<close>, \<open>NaN\<close> and the integers of magnitude below \<open>2^53 = 9007199254740992\<close>. Such
  an integer is a double, \<open>parseInt\<close> of its digits returns it, and adding 1 to it is exact.
\<close>

definition safeInt :: "jsint \<Rightarrow> bool" where
  "safeInt v = (case v of JInt n \<Rightarrow> \<bar>n\<bar> < 9007199254740992 | JNull \<Rightarrow> True | JNaN \<Rightarrow> True)"

text \<open>
  Modelled from the spec: \<open>soup.iStructure\<close>, the index of the structure that
  \<open>pushStructureId\<close> began last (the store's implementation is not in the sources).
\<close>

definition iStructure :: "soup \<Rightarrow> nat" where
  "iStructure s = length (structures s) - 1"

text \<open>
  Modelled from the spec: \<open>pushStructureId(id, title)\<close> "begins a new structure;
  subsequent atom insertions target it" (the store's implementation is not in the sources).
\<close>

definition pushStructureId :: "string \<Rightarrow> string \<Rightarrow> soup \<Rightarrow> soup" where
  "pushStructureId sid title s = s\<lparr>structures := structures s @ [(sid, title)]\<rparr>"

text \<open>
  Modelled from the spec: \<open>addAtom\<close> "appends one atom to the current structure's
  residue/chain buckets, creating a new residue bucket when (chainId, residueNumber,
  insertionCode) differs from the currently open residue" (the store's implementation is
  not in the sources). A new residue has no secondary-structure code yet.
\<close>

definition sameBucket :: "residue \<Rightarrow> residue \<Rightarrow> bool" where
  "sameBucket r r' =
     (r_iStructure r = r_iStructure r' \<and> r_chain r = r_chain r' \<and>
      strictEq (r_resNum r) (r_resNum r') \<and> r_insCode r = r_insCode r')"

definition addAtom :: "atom \<Rightarrow> soup \<Rightarrow> soup" where
  "addAtom a s =
     (let r = \<lparr>r_iStructure = iStructure s, r_chain = a_chain a, r_resNum = a_resNum a,
                r_insCode = a_insCode a, r_ss = []\<rparr>
      in s\<lparr>atoms := atoms s @ [a],
           residues := (if residues s = [] then [r]
                        else if sameBucket (last (residues s)) r then residues s
                        else residues s @ [r])\<rparr>)"

text \<open>
  Modelled from the spec: \<open>assignResidueProperties(structureIndex)\<close>, after which "a
  structure's residues are indexable and chain/residueNumber-addressable"; the residues
  of this model always are (the store's implementation is not in the sources).
\<close>

definition assignResidueProperties :: "nat \<Rightarrow> soup \<Rightarrow> soup" where
  "assignResidueProperties i s = s"

text \<open>
  Modelled from the spec: \<open>findResidueIndices(structureIndex, chainId, residueNumber)\<close>
  "returns the residue index/indices matching the given (chain, number) in the given
  structure" (the store's implementation is not in the sources).
\<close>

definition findResidueIndices :: "nat \<Rightarrow> jsval \<Rightarrow> jsint \<Rightarrow> soup \<Rightarrow> nat list" where
  "findResidueIndices i chain resNum s =
     filter (\<lambda>k. r_iStructure (residues s ! k) = i \<and> r_chain (residues s ! k) = chain \<and>
                 strictEq (r_resNum (residues s ! k)) resNum)
       [0 ..< length (residues s)]"

text \<open>
  The walk of the source, the same in its four copies but for the code it assigns:
  \<^verbatim>\<open>while (residue.resNum <= resNumEnd && chain === residue.chain) {
    residue.ss = code; residue.iRes = residue.iRes + 1 }\<close>
  Modelled from the spec: the cursor of \<open>getResidueProxy\<close> reads \<open>resNum\<close> and
  \<open>chain\<close> of the residue at \<open>iRes\<close> and writes its \<open>ss\<close>; past the last residue it
  reads \<open>undefined\<close>, and \<open>undefined <= resNumEnd\<close> is false.
\<close>

function walk :: "string \<Rightarrow> jsval \<Rightarrow> jsint \<Rightarrow> nat \<Rightarrow> residue list \<Rightarrow> residue list" where
  "walk code chain resNumEnd iRes rs =
     (if iRes < length rs \<and> jsLe (r_resNum (rs ! iRes)) resNumEnd \<and> chain = r_chain (rs ! iRes)
      then walk code chain resNumEnd (iRes + 1) (rs[iRes := (rs ! iRes)\<lparr>r_ss := code\<rparr>])
      else rs)"
  by pat_completeness auto
termination
  by (relation "measure (\<lambda>(code, chain, resNumEnd, iRes, rs). length rs - iRes)") auto

declare walk.simps [simp del]

text \<open>
  \<^verbatim>\<open>for (let iRes of this.soup.findResidueIndices(this.soup.iStructure, chain, resNumStart)) {
    residue.iRes = iRes; while ... }\<close>
\<close>

definition assignRange :: "string \<Rightarrow> jsval \<Rightarrow> jsint \<Rightarrow> jsint \<Rightarrow> soup \<Rightarrow> soup" where
  "assignRange code chain resNumStart resNumEnd s =
     s\<lparr>residues := foldl (\<lambda>rs iRes. walk code chain resNumEnd iRes rs) (residues s)
                       (findResidueIndices (iStructure s) chain resNumStart s)\<rparr>"

section \<open>PdbParser\<close>

record parser =
  soup :: soup
  hasSecondaryStructure :: bool
  error :: string
  parsingError :: jsval

text \<open>The constructor; \<open>parsingError\<close> is not a field it sets.\<close>

definition newParser :: "soup \<Rightarrow> parser" where
  "newParser s = \<lparr>soup = s, hasSecondaryStructure = False, error = [], parsingError = Undefined\<rparr>"

definition isAtomLine :: "string \<Rightarrow> bool" where
  "isAtomLine line = (substr line 0 4 = ''ATOM'' \<or> substr line 0 6 = ''HETATM'')"

fun isNmr :: "string list \<Rightarrow> bool" where
  "isNmr [] = False"
| "isNmr (line # rest) =
     (if startsWith line ''EXPDTA'' \<and> js_includes line ''NMR'' then True else isNmr rest)"

text \<open>
  The body of the \<open>try\<close> of \<open>PdbParser.parseAtomLines\<close>. An exception is \<open>Inl\<close>; no
  operation of this body throws on a string (\<open>substr\<close>, an index, \<open>_.trim\<close>,
  \<open>parseInt\<close>, \<open>parseFloat\<close>, \<open>replace\<close>).
\<close>

datatype exn = TypeError

definition PdbParser_readAtom :: "string \<Rightarrow> exn + atom" where
  "PdbParser_readAtom line =
     Inr \<lparr>a_x = parseFloat (Str (substr line 30 7)),
          a_y = parseFloat (Str (substr line 38 7)),
          a_z = parseFloat (Str (substr line 46 7)),
          a_bfactor = parseFloat (Str (substr line 60 6)),
          a_alt = Str (trim (substr line 16 1)),
          a_atomType = trim (substr line 12 4),
          a_elem = Str (deleteNumbers (trim (substr line 76 2))),
          a_resType = Str (trim (substr line 17 3)),
          a_resNum = parseInt (Str (substr line 22 4)),
          a_insCode = Str (substr line 26 1),
          a_chain = charAt line 21\<rparr>"

text \<open>
  \<^verbatim>\<open>if (elem === '') { elem = deleteNumbers(_.trim(atomType)).substr(0, 1) }\<close>,
  the same in both parsers.
\<close>

definition inferElem :: "atom \<Rightarrow> atom" where
  "inferElem a =
     (if a_elem a = Str [] then a\<lparr>a_elem := Str (substr (deleteNumbers (trim (a_atomType a))) 0 1)\<rparr>
      else a)"

text \<open>One turn of the loop of \<open>PdbParser.parseAtomLines\<close>, and the loop from \<open>iLine\<close> on.\<close>

definition PdbParser_atomLine :: "nat \<Rightarrow> string \<Rightarrow> parser \<Rightarrow> parser" where
  "PdbParser_atomLine iLine line p =
     (if isAtomLine line then
        (case PdbParser_readAtom line of
           Inl e \<Rightarrow> p\<lparr>error := ''line '' @ showNat iLine\<rparr>
         | Inr a \<Rightarrow> p\<lparr>soup := addAtom (inferElem a) (soup p)\<rparr>)
      else p)"

primrec PdbParser_atomLoop :: "string list \<Rightarrow> nat \<Rightarrow> parser \<Rightarrow> parser" where
  "PdbParser_atomLoop [] iLine p = p"
| "PdbParser_atomLoop (line # rest) iLine p =
     PdbParser_atomLoop rest (iLine + 1) (PdbParser_atomLine iLine line p)"

definition PdbParser_parseAtomLines :: "string list \<Rightarrow> parser \<Rightarrow> parser" where
  "PdbParser_parseAtomLines pdbLines p = PdbParser_atomLoop pdbLines 0 p"

text \<open>One turn of the loop of \<open>PdbParser.parseSecondaryStructureLines\<close>.\<close>

definition PdbParser_ssLine :: "parser \<Rightarrow> string \<Rightarrow> parser" where
  "PdbParser_ssLine p line =
     (if substr line 0 5 = ''HELIX'' then
        p\<lparr>hasSecondaryStructure := True,
          soup := assignRange ''H'' (Str (substr line 19 1)) (parseInt (Str (substr line 21 4)))
                    (parseInt (Str (substr line 33 4))) (soup p)\<rparr>
      else if substr line 0 5 = ''SHEET'' then
        p\<lparr>hasSecondaryStructure := True,
          soup := assignRange ''E'' (Str (substr line 21 1)) (parseInt (Str (substr line 22 4)))
                    (parseInt (Str (substr line 33 4))) (soup p)\<rparr>
      else p)"

definition PdbParser_parseSecondaryStructureLines :: "string list \<Rightarrow> parser \<Rightarrow> parser" where
  "PdbParser_parseSecondaryStructureLines pdbLines p =
     foldl PdbParser_ssLine
       (p\<lparr>soup := assignResidueProperties (iStructure (soup p)) (soup p)\<rparr>) pdbLines"

definition PdbParser_parseTitle :: "string list \<Rightarrow> string" where
  "PdbParser_parseTitle lines =
     foldl (\<lambda>result line. if take 5 line = ''TITLE'' then result @ drop 10 line else result) [] lines"

text \<open>
  The scan of \<open>parsePdbData\<close> that sorts the atom lines into models; \<open>break\<close> ends
  it at the first \<open>END\<close> line of an NMR file.
\<close>

fun splitModels :: "bool \<Rightarrow> string list \<Rightarrow> string list list \<Rightarrow> nat \<Rightarrow> string list list \<times> nat" where
  "splitModels nmr [] models iModel = (models, iModel)"
| "splitModels nmr (line # rest) models iModel =
     (if isAtomLine line then splitModels nmr rest (models[iModel := models ! iModel @ [line]]) iModel
      else if substr line 0 3 = ''END'' then
        (if nmr then (models, iModel) else splitModels nmr rest (models @ [[]]) (iModel + 1))
      else splitModels nmr rest models iModel)"

text \<open>The body of the loop over the models, and the loop from \<open>iModel\<close> on.\<close>

definition loadModel :: "string list \<Rightarrow> string \<Rightarrow> string \<Rightarrow> nat \<Rightarrow> string list \<Rightarrow> nat \<Rightarrow> parser \<Rightarrow> parser" where
  "loadModel lines pdbId title nModel model iModel p =
     (let structureId = (if nModel > 1 then pdbId @ ''['' @ showNat (iModel + 1) @ '']'' else pdbId);
          p1 = p\<lparr>soup := pushStructureId structureId title (soup p)\<rparr>;
          p2 = PdbParser_parseAtomLines model p1
      in PdbParser_parseSecondaryStructureLines lines p2)"

primrec loadModels :: "string list \<Rightarrow> string \<Rightarrow> string \<Rightarrow> nat \<Rightarrow> string list list \<Rightarrow> nat \<Rightarrow> parser \<Rightarrow> parser" where
  "loadModels lines pdbId title nModel [] iModel p = p"
| "loadModels lines pdbId title nModel (model # rest) iModel p =
     loadModels lines pdbId title nModel rest (iModel + 1)
       (loadModel lines pdbId title nModel model iModel p)"

definition PdbParser_parsePdbData :: "string \<Rightarrow> string \<Rightarrow> parser \<Rightarrow> parser" where
  "PdbParser_parsePdbData pdbText pdbId p =
     (let lines = splitLines pdbText in
      if length lines = 0 then p\<lparr>parsingError := Str ''No atom lines''\<rparr>
      else
        let title = PdbParser_parseTitle lines;
            nmr = isNmr lines;
            (models, iModel) = splitModels nmr lines [[]] 0;
            models' = (if length (models ! iModel) = 0 then butlast models else models)
        in loadModels lines pdbId title (length models') models' 0 p)"

section \<open>CifParser\<close>

text \<open>The scan state of \<open>CifParser.parseAtomLines\<close>; all three start as \<open>null\<close>.\<close>

record numbering =
  nextResNum :: jsint
  lastChain :: jsval
  lastEntity :: jsval

definition initNumbering :: numbering where
  "initNumbering = \<lparr>nextResNum = JNull, lastChain = Null, lastEntity = Null\<rparr>"

text \<open>
  The residue number of one atom (\<open>token = tokens[8]\<close>, and \<open>tokens[16]\<close> for the other
  branch) and the scan state after it.
\<close>

definition advance :: "jsval \<Rightarrow> jsval \<Rightarrow> numbering \<Rightarrow> numbering" where
  "advance chain entity st =
     \<lparr>nextResNum = jsInc (nextResNum st), lastChain = chain, lastEntity = entity\<rparr>"

definition resolveResNum :: "jsval \<Rightarrow> jsval \<Rightarrow> jsval \<Rightarrow> jsval \<Rightarrow> jsval \<Rightarrow> numbering \<Rightarrow> jsint \<times> numbering" where
  "resolveResNum token chain entity resType token16 st =
     (if token = Str ''.'' then
        (if \<not> (chain = lastChain st \<and> entity = lastEntity st) \<or> resType = Str ''HOH''
         then (jsInc (nextResNum st), advance chain entity st)
         else (nextResNum st, st))
      else (parseInt token16,
            \<lparr>nextResNum = jsInc (parseInt token16), lastChain = chain, lastEntity = entity\<rparr>))"

text \<open>
  The body of the \<open>try\<close> of \<open>CifParser.parseAtomLines\<close>: \<open>removeQuotes(tokens[3])\<close>
  throws when the line has fewer than four tokens, before the scan state is touched.
\<close>

definition CifParser_readAtom :: "string list \<Rightarrow> numbering \<Rightarrow> exn + (atom \<times> numbering)" where
  "CifParser_readAtom tokens st =
     (case removeQuotes (tok tokens 3) of
        None \<Rightarrow> Inl TypeError
      | Some atomType \<Rightarrow>
          (case resolveResNum (tok tokens 8) (tok tokens 6) (tok tokens 7) (tok tokens 5)
                  (tok tokens 16) st of
             (resNum, st') \<Rightarrow>
               Inr (\<lparr>a_x = parseFloat (tok tokens 10),
                     a_y = parseFloat (tok tokens 11),
                     a_z = parseFloat (tok tokens 12),
                     a_bfactor = parseFloat (tok tokens 14),
                     a_alt = (if tok tokens 4 = Str ''.'' then Str [] else tok tokens 4),
                     a_atomType = atomType,
                     a_elem = tok tokens 2,
                     a_resType = tok tokens 5,
                     a_resNum = resNum,
                     a_insCode = (if tok tokens 9 = Str ''?'' then Str [] else tok tokens 9),
                     a_chain = tok tokens 6\<rparr>, st')))"

text \<open>One turn of the loop of \<open>CifParser.parseAtomLines\<close>, and the loop from \<open>iLine\<close> on.\<close>

definition CifParser_atomLine :: "nat \<Rightarrow> string \<Rightarrow> numbering \<times> parser \<Rightarrow> numbering \<times> parser" where
  "CifParser_atomLine iLine line sp =
     (if isAtomLine line then
        (case CifParser_readAtom (splitTokens line) (fst sp) of
           Inl e \<Rightarrow> (fst sp, (snd sp)\<lparr>error := ''line '' @ showNat iLine\<rparr>)
         | Inr (a, st') \<Rightarrow> (st', (snd sp)\<lparr>soup := addAtom (inferElem a) (soup (snd sp))\<rparr>))
      else sp)"

primrec CifParser_atomLoop :: "string list \<Rightarrow> nat \<Rightarrow> numbering \<times> parser \<Rightarrow> numbering \<times> parser" where
  "CifParser_atomLoop [] iLine sp = sp"
| "CifParser_atomLoop (line # rest) iLine sp =
     CifParser_atomLoop rest (iLine + 1) (CifParser_atomLine iLine line sp)"

definition CifParser_parseAtomLines :: "string list \<Rightarrow> parser \<Rightarrow> parser" where
  "CifParser_parseAtomLines pdbLines p = snd (CifParser_atomLoop pdbLines 0 (initNumbering, p))"

text \<open>A data row of the helix loop and of the sheet loop.\<close>

definition helixRow :: "string \<Rightarrow> parser \<Rightarrow> parser" where
  "helixRow line p =
     p\<lparr>hasSecondaryStructure := True,
       soup := assignRange ''H'' (tok (splitTokens line) 4) (parseInt (tok (splitTokens line) 5))
                 (parseInt (tok (splitTokens line) 9)) (soup p)\<rparr>"

definition sheetRow :: "string \<Rightarrow> parser \<Rightarrow> parser" where
  "sheetRow line p =
     p\<lparr>hasSecondaryStructure := True,
       soup := assignRange ''E'' (tok (splitTokens line) 3) (parseInt (tok (splitTokens line) 4))
                 (parseInt (tok (splitTokens line) 8)) (soup p)\<rparr>"

text \<open>
  The loops of \<open>parseHelixLines\<close> and \<open>parseSheetLines\<close>; the flag is
  \<open>isHelixLoop\<close> (\<open>isSheetLoop\<close>), and \<open>break\<close> ends the scan at the first \<open>#\<close> line
  inside the loop.
\<close>

fun helixLoop :: "string list \<Rightarrow> bool \<Rightarrow> parser \<Rightarrow> parser" where
  "helixLoop [] isHelixLoop p = p"
| "helixLoop (line # rest) isHelixLoop p =
     (if \<not> (isHelixLoop \<or> startsWith line ''_struct_conf.pdbx_PDB_helix_id'')
        then helixLoop rest False p
      else if startsWith line ''#'' then p
      else if \<not> startsWith line ''_struct_conf'' then helixLoop rest True (helixRow line p)
      else helixLoop rest True p)"

fun sheetLoop :: "string list \<Rightarrow> bool \<Rightarrow> parser \<Rightarrow> parser" where
  "sheetLoop [] isSheetLoop p = p"
| "sheetLoop (line # rest) isSheetLoop p =
     (if \<not> (isSheetLoop \<or> startsWith line ''_struct_sheet_range.sheet_id'')
        then sheetLoop rest False p
      else if startsWith line ''#'' then p
      else if substr line 0 6 \<noteq> ''_struct'' then sheetLoop rest True (sheetRow line p)
      else sheetLoop rest True p)"

definition CifParser_parseHelixLines :: "string list \<Rightarrow> parser \<Rightarrow> parser" where
  "CifParser_parseHelixLines pdbLines p = helixLoop pdbLines False p"

definition CifParser_parseSheetLines :: "string list \<Rightarrow> parser \<Rightarrow> parser" where
  "CifParser_parseSheetLines pdbLines p = sheetLoop pdbLines False p"

definition CifParser_parseSecondaryStructureLines :: "string list \<Rightarrow> parser \<Rightarrow> parser" where
  "CifParser_parseSecondaryStructureLines pdbLines p =
     CifParser_parseSheetLines pdbLines
       (CifParser_parseHelixLines pdbLines
          (p\<lparr>hasSecondaryStructure := False,
             soup := assignResidueProperties (iStructure (soup p)) (soup p)\<rparr>))"

text \<open>The loop of \<open>CifParser.parseTitle\<close> from index \<open>i\<close> on.\<close>

function titleLoop :: "string list \<Rightarrow> nat \<Rightarrow> string" where
  "titleLoop lines i =
     (if i < length lines then
        (if startsWith (lines ! i) ''_struct.title'' \<and>
            trim (replaceFirst (lines ! i) ''_struct.title'' []) \<noteq> []
           then removeQuotesStr (trim (trim (replaceFirst (lines ! i) ''_struct.title'' [])))
         else if i > 0 \<and> startsWith (lines ! (i - 1)) ''_struct.title''
           then removeQuotesStr (trim (lines ! i))
         else titleLoop lines (i + 1))
      else [])"
  by pat_completeness auto
termination
  by (relation "measure (\<lambda>(lines, i). length lines - i)") auto

declare titleLoop.simps [simp del]

definition CifParser_parseTitle :: "string list \<Rightarrow> string" where
  "CifParser_parseTitle lines = titleLoop lines 0"

definition CifParser_parsePdbData :: "string \<Rightarrow> string \<Rightarrow> parser \<Rightarrow> parser" where
  "CifParser_parsePdbData pdbText pdbId p =
     (let lines = splitLines pdbText in
      if length lines = 0 then p\<lparr>parsingError := Str ''No atom lines''\<rparr>
      else
        CifParser_parseSecondaryStructureLines lines
          (CifParser_parseAtomLines lines
             (p\<lparr>soup := pushStructureId pdbId (CifParser_parseTitle lines) (soup p)\<rparr>)))"

section \<open>Notions of the specification and example inputs\<close>

text \<open>A terminator line, and the lines after the last terminator of a file.\<close>

definition isEndLine :: "string \<Rightarrow> bool" where
  "isEndLine line = (substr line 0 3 = ''END'')"

definition afterLastEnd :: "string list \<Rightarrow> string list" where
  "afterLastEnd ls = rev (takeWhile (\<lambda>l. \<not> isEndLine l) (rev ls))"

text \<open>The store before anything is loaded.\<close>

definition emptySoup :: soup where
  "emptySoup = \<lparr>structures = [], atoms = [], residues = []\<rparr>"

text \<open>Example files: lines joined by line feeds.\<close>

definition nmrExample :: string where
  "nmrExample = concat (map (\<lambda>l. l @ [CHR 0x0A])
     [''EXPDTA    SOLUTION NMR'',
      ''MODEL        1'',
      ''ATOM      1  N   ALA A   1      11.104  13.207   2.100  1.00 20.00           N'',
      ''ENDMDL'',
      ''MODEL        2'',
      ''ATOM      1  N   ALA A   1      11.204  13.307   2.200  1.00 20.00           N'',
      ''ENDMDL'',
      ''MODEL        3'',
      ''ATOM      1  N   ALA A   1      11.304  13.407   2.300  1.00 20.00           N'',
      ''ENDMDL'',
      ''MODEL        4'',
      ''ATOM      1  N   ALA A   1      11.404  13.507   2.400  1.00 20.00           N'',
      ''ENDMDL'',
      ''MODEL        5'',
      ''ATOM      1  N   ALA A   1      11.504  13.607   2.500  1.00 20.00           N'',
      ''ENDMDL''])"

definition threeModelExample :: string where
  "threeModelExample = concat (map (\<lambda>l. l @ [CHR 0x0A])
     [''TITLE     THREE MODELS'',
      ''MODEL        1'',
      ''ATOM      1  N   ALA A   1      11.104  13.207   2.100  1.00 20.00           N'',
      ''END'',
      ''MODEL        2'',
      ''ATOM      1  N   ALA A   1      11.204  13.307   2.200  1.00 20.00           N'',
      ''END'',
      ''MODEL        3'',
      ''ATOM      1  N   ALA A   1      11.304  13.407   2.300  1.00 20.00           N'',
      ''END''])"

definition corruptedPdbExample :: string where
  "corruptedPdbExample = concat (map (\<lambda>l. l @ [CHR 0x0A])
     [''ATOM      1  N   ALA A   1      11.104  13.207   2.100  1.00 20.00           N'',
      ''ATOM      2  CA  ALA A   1      xx.xxx  yy.yyy   z.zzz  1.00 20.00           C'',
      ''ATOM      3  C   ALA A   1      13.504  13.607   2.500  1.00 20.00           C''])"

definition corruptedCifExample :: string where
  "corruptedCifExample = concat (map (\<lambda>l. l @ [CHR 0x0A])
     [''ATOM 1 N N . MET A 1 1 ? 27.340 24.430 2.614 1.00 9.67 ? 1 MET A N 1'',
      ''ATOM 2 C CA . MET A 1 1 ? xx.xxx yy.yyy z.zzz 1.00 9.67 ? 1 MET A CA 1'',
      ''ATOM 3 C C . MET A 1 1 ? 25.340 24.430 2.614 1.00 9.67 ? 1 MET A C 1''])"

text \<open>
  The loop that a scan reads: the lines from the first line starting with the opener up to,
  and without, the next line starting with \<open>#\<close>. And every loop of a file, for the
  reading "some loop".
\<close>

definition firstLoop :: "string \<Rightarrow> string list \<Rightarrow> string list" where
  "firstLoop opener lines =
     takeWhile (\<lambda>l. \<not> startsWith l ''#'') (dropWhile (\<lambda>l. \<not> startsWith l opener) lines)"

function allLoops :: "string \<Rightarrow> string list \<Rightarrow> string list list" where
  "allLoops opener [] = []"
| "allLoops opener (l # ls) =
     (if startsWith l opener
      then (l # takeWhile (\<lambda>l. \<not> startsWith l ''#'') ls) #
             allLoops opener (dropWhile (\<lambda>l. \<not> startsWith l ''#'') ls)
      else allLoops opener ls)"
  by pat_completeness auto
termination
  by (relation "measure (\<lambda>(opener, ls). length ls)")
     (auto simp: less_Suc_eq_le length_dropWhile_le)

definition twoHelixLoopsExample :: string where
  "twoHelixLoopsExample = concat (map (\<lambda>l. l @ [CHR 0x0A])
     [''loop_'',
      ''_struct_conf.pdbx_PDB_helix_id'',
      ''#'',
      ''loop_'',
      ''_struct_conf.pdbx_PDB_helix_id'',
      ''HELX_P HELX_P1 1 ALA A 10 ? ALA A 15'',
      ''#''])"

definition helixExample :: string where
  "helixExample = concat (map (\<lambda>l. l @ [CHR 0x0A])
     [''loop_'',
      ''_struct_conf.conf_type_id'',
      ''_struct_conf.pdbx_PDB_helix_id'',
      ''_struct_conf.beg_label_asym_id'',
      ''HELX_P HELX_P1 1 ALA A 10 ? ALA A 15'',
      ''#''])"

text \<open>Example mmCIF files for the title, in the two-line and the one-line form.\<close>

definition titleExample :: string where
  "titleExample = concat (map (\<lambda>l. l @ [CHR 0x0A])
     [''data_1ABC'', ''_struct.title'', [CHR 0x27] @ ''My Protein'' @ [CHR 0x27]])"

definition titleOneLineExample :: string where
  "titleOneLineExample = concat (map (\<lambda>l. l @ [CHR 0x0A])
     [''data_1ABC'', ''_struct.title   '' @ [CHR 0x22] @ ''My Protein'' @ [CHR 0x22], ''_struct.title Other''])"

text \<open>
  The residue at index \<open>i\<close> is reached by the walk that starts at index \<open>i0\<close>: every
  residue from \<open>i0\<close> to \<open>i\<close> has a number not above the end and the chain of the record.
\<close>

definition reached :: "jsval \<Rightarrow> jsint \<Rightarrow> residue list \<Rightarrow> nat \<Rightarrow> nat \<Rightarrow> bool" where
  "reached chain resNumEnd rs i0 i =
     (i0 \<le> i \<and> i < length rs \<and>
      (\<forall>j\<in>{i0..i}. jsLe (r_resNum (rs ! j)) resNumEnd \<and> chain = r_chain (rs ! j)))"

text \<open>Example files for the helix walk.\<close>

definition helixLine :: string where
  "helixLine = ''HELIX    1   1 ALA A   10  ALA A   15  1                                   6''"

definition helixWalkExample :: "string list" where
  "helixWalkExample =
     [''ATOM      1  CA  ALA A   9       1.000   2.000   3.000  1.00 20.00           C'',
      ''ATOM      2  CA  ALA A  10       2.000   2.000   3.000  1.00 20.00           C'',
      ''ATOM      3  CA  ALA A  11       3.000   2.000   3.000  1.00 20.00           C'',
      ''ATOM      4  CA  ALA A  15       4.000   2.000   3.000  1.00 20.00           C'',
      ''ATOM      5  CA  ALA A  16       5.000   2.000   3.000  1.00 20.00           C'',
      ''ATOM      6  CA  ALA A  12       6.000   2.000   3.000  1.00 20.00           C'']"

definition helixWalkStore :: parser where
  "helixWalkStore =
     PdbParser_parseAtomLines helixWalkExample (newParser (pushStructureId ''1abc'' [] emptySoup))"

definition helixBelowStartExample :: string where
  "helixBelowStartExample = concat (map (\<lambda>l. l @ [CHR 0x0A])
     [''HELIX    1   1 ALA A   10  ALA A   15  1                                   6'',
      ''ATOM      1  CA  ALA A  10       1.000   2.000   3.000  1.00 20.00           C'',
      ''ATOM      2  CA  ALA A   3       2.000   2.000   3.000  1.00 20.00           C''])"

text \<open>Example atom records of an mmCIF file.\<close>

definition cifExplicitLine :: string where
  "cifExplicitLine = ''ATOM 1 N N . MET A 1 5 ? 27.340 24.430 2.614 1.00 9.67 ? 105 MET A N 1''"

definition cifLigandLine :: string where
  "cifLigandLine = ''HETATM 2 C C1 . LIG B 2 . ? 1.0 2.0 3.0 1.00 9.67 ? 201 LIG B C1 1''"

definition cifLigandLineC :: string where
  "cifLigandLineC = ''HETATM 4 C C1 . LIG C 2 . ? 1.0 2.0 3.0 1.00 9.67 ? 201 LIG C C1 1''"

definition cifWaterLine :: string where
  "cifWaterLine = ''HETATM 3 O O . HOH B 2 . ? 1.0 2.0 3.0 1.00 9.67 ? 301 HOH B O 1''"

text \<open>
  The residue numbers of the atoms that the loop of \<open>CifParser.parseAtomLines\<close> hands to
  the store for the given lines, started at line index \<open>i\<close> in scan state \<open>st\<close>. And the
  number that a sentinel atom of chain \<open>c\<close> and entity \<open>en\<close>, not water, resolves to in
  scan state \<open>st\<close>.
\<close>

definition addedResNums :: "string list \<Rightarrow> nat \<Rightarrow> numbering \<Rightarrow> parser \<Rightarrow> jsint list" where
  "addedResNums lines i st p =
     map a_resNum (drop (length (atoms (soup p)))
       (atoms (soup (snd (CifParser_atomLoop lines i (st, p))))))"

definition runNumber :: "jsval \<Rightarrow> jsval \<Rightarrow> numbering \<Rightarrow> jsint" where
  "runNumber c en st =
     (if c = lastChain st \<and> en = lastEntity st then nextResNum st else jsInc (nextResNum st))"

text \<open>
  The columns \<open>a\<close> to \<open>b\<close> of a line, counted from 0, both included. And the atom that
  \<open>PdbParser.parseAtomLines\<close> hands to \<open>addAtom\<close> for an atom line.
\<close>

definition cols :: "string \<Rightarrow> nat \<Rightarrow> nat \<Rightarrow> string" where
  "cols line a b = take (b + 1 - a) (drop a line)"

definition pdbAtom :: "string \<Rightarrow> atom" where
  "pdbAtom line = inferElem (projr (PdbParser_readAtom line))"

text \<open>Example atom records of a PDB file.\<close>

definition pdbWideLine :: string where
  "pdbWideLine = ''ATOM      7 HD11 LEU A   2    1234.567 -13.207   2.125  1.00 20.00          N1''"

definition pdbBlankElementLine :: string where
  "pdbBlankElementLine = ''ATOM      8 1HB  ALA A   3      11.104  13.207   2.100  1.00 20.00            ''"

definition pdbPlainLine :: string where
  "pdbPlainLine = ''ATOM      1  N   ALA A   1      11.104  13.207   2.100  1.00 20.00           N''"

text \<open>Example atom records with a digit in the element field.\<close>

definition pdbDigitElementLine :: string where
  "pdbDigitElementLine = ''ATOM      7 HD11 LEU A   2      11.104  13.207   2.100  1.00 20.00          N1''"

definition cifElementLine :: string where
  "cifElementLine = ''ATOM 1 N1 CA . MET A 1 1 ? 27.340 24.430 2.614 1.00 9.67 ? 1 MET A CA 1''"

section \<open>The scans never see an empty list of lines\<close>

lemma splitLinesFrom_nonempty: "splitLinesFrom acc s \<noteq> []"
  by (induction s arbitrary: acc) auto

lemma splitLines_nonempty: "splitLines s \<noteq> []"
  by (simp add: splitLines_def splitLinesFrom_nonempty)

section \<open>What the loops leave as it was\<close>

lemma addAtom_structures [simp]: "structures (addAtom a s) = structures s"
  by (simp add: addAtom_def Let_def)

lemma addAtom_atoms [simp]: "atoms (addAtom a s) = atoms s @ [a]"
  by (simp add: addAtom_def Let_def)

lemma assignRange_structures [simp]: "structures (assignRange code c a b s) = structures s"
  by (simp add: assignRange_def)

lemma assignRange_atoms [simp]: "atoms (assignRange code c a b s) = atoms s"
  by (simp add: assignRange_def)

lemma PdbParser_atomLine_frame:
  "structures (soup (PdbParser_atomLine i line p)) = structures (soup p)"
  "error (PdbParser_atomLine i line p) = error p"
  "parsingError (PdbParser_atomLine i line p) = parsingError p"
  "hasSecondaryStructure (PdbParser_atomLine i line p) = hasSecondaryStructure p"
  by (simp_all add: PdbParser_atomLine_def PdbParser_readAtom_def)

lemma PdbParser_atomLine_atoms:
  "atoms (soup (PdbParser_atomLine i line p)) =
     atoms (soup p) @ (if isAtomLine line then [inferElem (projr (PdbParser_readAtom line))] else [])"
  by (simp add: PdbParser_atomLine_def PdbParser_readAtom_def)

lemma PdbParser_atomLoop_frame:
  "structures (soup (PdbParser_atomLoop ls i p)) = structures (soup p) \<and>
   error (PdbParser_atomLoop ls i p) = error p \<and>
   parsingError (PdbParser_atomLoop ls i p) = parsingError p \<and>
   hasSecondaryStructure (PdbParser_atomLoop ls i p) = hasSecondaryStructure p"
  by (induction ls arbitrary: i p) (simp_all add: PdbParser_atomLine_frame)

lemma PdbParser_atomLoop_atoms:
  "atoms (soup (PdbParser_atomLoop ls i p)) =
     atoms (soup p) @ map (\<lambda>l. inferElem (projr (PdbParser_readAtom l))) (filter isAtomLine ls)"
  by (induction ls arbitrary: i p) (simp_all add: PdbParser_atomLine_atoms)

lemma PdbParser_ssLine_frame:
  "structures (soup (PdbParser_ssLine p line)) = structures (soup p)"
  "atoms (soup (PdbParser_ssLine p line)) = atoms (soup p)"
  "error (PdbParser_ssLine p line) = error p"
  "parsingError (PdbParser_ssLine p line) = parsingError p"
  by (simp_all add: PdbParser_ssLine_def)

lemma foldl_ssLine_frame:
  "structures (soup (foldl PdbParser_ssLine p ls)) = structures (soup p) \<and>
   atoms (soup (foldl PdbParser_ssLine p ls)) = atoms (soup p) \<and>
   error (foldl PdbParser_ssLine p ls) = error p \<and>
   parsingError (foldl PdbParser_ssLine p ls) = parsingError p"
  by (induction ls arbitrary: p) (simp_all add: PdbParser_ssLine_frame)

lemma PdbParser_parseSS_frame:
  "structures (soup (PdbParser_parseSecondaryStructureLines ls p)) = structures (soup p)"
  "atoms (soup (PdbParser_parseSecondaryStructureLines ls p)) = atoms (soup p)"
  "error (PdbParser_parseSecondaryStructureLines ls p) = error p"
  "parsingError (PdbParser_parseSecondaryStructureLines ls p) = parsingError p"
  by (simp_all add: PdbParser_parseSecondaryStructureLines_def foldl_ssLine_frame
        assignResidueProperties_def)

lemma loadModel_frame:
  "structures (soup (loadModel lines pdbId title n model i p)) =
     structures (soup p) @ [(if n > 1 then pdbId @ ''['' @ showNat (i + 1) @ '']'' else pdbId, title)]"
  "atoms (soup (loadModel lines pdbId title n model i p)) =
     atoms (soup p) @ map (\<lambda>l. inferElem (projr (PdbParser_readAtom l))) (filter isAtomLine model)"
  "error (loadModel lines pdbId title n model i p) = error p"
  "parsingError (loadModel lines pdbId title n model i p) = parsingError p"
  by (simp_all add: loadModel_def Let_def PdbParser_parseSS_frame PdbParser_parseAtomLines_def
        PdbParser_atomLoop_frame PdbParser_atomLoop_atoms pushStructureId_def)

lemma loadModels_structures:
  "structures (soup (loadModels lines pdbId title n models i p)) =
     structures (soup p) @
       map (\<lambda>k. (if n > 1 then pdbId @ ''['' @ showNat (k + 1) @ '']'' else pdbId, title))
         [i ..< i + length models]"
proof (induction models arbitrary: i p)
  case Nil
  show ?case by simp
next
  case (Cons m ms)
  have "[i ..< i + length (m # ms)] = i # [i + 1 ..< i + 1 + length ms]"
    by (subst upt_rec) simp
  then show ?case by (simp add: Cons.IH loadModel_frame del: upt_Suc)
qed

lemma loadModels_frame:
  "error (loadModels lines pdbId title n models i p) = error p \<and>
   parsingError (loadModels lines pdbId title n models i p) = parsingError p"
  by (induction models arbitrary: i p) (simp_all add: loadModel_frame)

lemma loadModels_atoms:
  "atoms (soup (loadModels lines pdbId title n models i p)) =
     atoms (soup p) @ map (\<lambda>l. inferElem (projr (PdbParser_readAtom l))) (filter isAtomLine (concat models))"
  by (induction models arbitrary: i p) (simp_all add: loadModel_frame)

lemma isAtomLine_not_END: "isAtomLine l \<Longrightarrow> substr l 0 3 \<noteq> ''END''"
proof
  assume a: "isAtomLine l" and e: "substr l 0 3 = ''END''"
  from e have t: "take 3 l = ''END''" by (simp add: substr_def)
  from a consider "take 4 l = ''ATOM''" | "take 6 l = ''HETATM''"
    by (auto simp: isAtomLine_def substr_def)
  then show False
  proof cases
    case 1
    then have "take 3 (take 4 l) = take 3 ''ATOM''" by (rule arg_cong)
    with t show False by simp
  next
    case 2
    then have "take 3 (take 6 l) = take 3 ''HETATM''" by (rule arg_cong)
    with t show False by simp
  qed
qed

lemma splitModels_nmr:
  "i < length ms \<Longrightarrow>
   splitModels True ls ms i =
     (ms[i := ms ! i @ filter isAtomLine (takeWhile (\<lambda>l. substr l 0 3 \<noteq> ''END'') ls)], i)"
proof (induction ls arbitrary: ms)
  case Nil
  then show ?case by simp
next
  case (Cons l ls)
  show ?case
  proof (cases "isAtomLine l")
    case True
    with Cons show ?thesis by (simp add: isAtomLine_not_END)
  next
    case False
    with Cons show ?thesis by simp
  qed
qed

lemma splitModels_count:
  "ms \<noteq> [] \<Longrightarrow>
   snd (splitModels False ls ms (length ms - 1)) = length ms - 1 + length (filter isEndLine ls) \<and>
   length (fst (splitModels False ls ms (length ms - 1))) = length ms + length (filter isEndLine ls)"
proof (induction ls arbitrary: ms)
  case Nil
  then show ?case by simp
next
  case (Cons l ls)
  show ?case
  proof (cases "isAtomLine l")
    case True
    then have "\<not> isEndLine l" by (simp add: isEndLine_def isAtomLine_not_END)
    with True Cons.prems Cons.IH[of "ms[length ms - 1 := ms ! (length ms - 1) @ [l]]"]
    show ?thesis by simp
  next
    case False
    show ?thesis
    proof (cases "isEndLine l")
      case True
      with False Cons.prems Cons.IH[of "ms @ [[]]"] show ?thesis
        by (simp add: isEndLine_def)
    next
      case e: False
      with False Cons.prems Cons.IH[of ms] show ?thesis by (simp add: isEndLine_def)
    qed
  qed
qed

lemma afterLastEnd_none: "\<forall>x\<in>set ls. \<not> isEndLine x \<Longrightarrow> afterLastEnd ls = ls"
proof -
  assume "\<forall>x\<in>set ls. \<not> isEndLine x"
  then have "takeWhile (\<lambda>l. \<not> isEndLine l) (rev ls) = rev ls"
    by (intro takeWhile_eq_all_conv[THEN iffD2]) simp
  then show ?thesis by (simp only: afterLastEnd_def rev_rev_ident)
qed

lemma afterLastEnd_Cons:
  "afterLastEnd (l # ls) =
     (if \<exists>x\<in>set ls. isEndLine x then afterLastEnd ls
      else if isEndLine l then ls else l # ls)"
proof (cases "\<exists>x\<in>set ls. isEndLine x")
  case True
  then show ?thesis by (auto simp: afterLastEnd_def takeWhile_append)
next
  case False
  then have n: "\<forall>x\<in>set ls. \<not> isEndLine x" by simp
  show ?thesis
  proof (cases "isEndLine l")
    case True
    have r: "rev (takeWhile (\<lambda>l. \<not> isEndLine l) (rev ls)) = ls"
      using afterLastEnd_none[OF n] by (simp only: afterLastEnd_def)
    show ?thesis using n True r by (simp add: afterLastEnd_def takeWhile_append)
  next
    case e: False
    then have "\<forall>x\<in>set (l # ls). \<not> isEndLine x" using n by simp
    from afterLastEnd_none[OF this] show ?thesis using n e by simp
  qed
qed

lemma splitModels_last:
  "ms \<noteq> [] \<Longrightarrow>
   last (fst (splitModels False ls ms (length ms - 1))) =
     (if \<exists>x\<in>set ls. isEndLine x then filter isAtomLine (afterLastEnd ls)
      else last ms @ filter isAtomLine ls)"
proof (induction ls arbitrary: ms)
  case Nil
  then show ?case by simp
next
  case (Cons l ls)
  show ?case
  proof (cases "isAtomLine l")
    case True
    then have ne: "\<not> isEndLine l" by (simp add: isEndLine_def isAtomLine_not_END)
    let ?ms = "ms[length ms - 1 := ms ! (length ms - 1) @ [l]]"
    have l: "last ?ms = last ms @ [l]" using Cons.prems
      by (simp add: last_conv_nth)
    from True ne Cons.prems Cons.IH[of ?ms] l show ?thesis
      by (simp add: afterLastEnd_Cons)
  next
    case False
    show ?thesis
    proof (cases "isEndLine l")
      case True
      with False Cons.prems Cons.IH[of "ms @ [[]]"] show ?thesis
        by (simp add: isEndLine_def afterLastEnd_Cons afterLastEnd_none)
    next
      case e: False
      with False Cons.prems Cons.IH[of ms] show ?thesis
        by (simp add: isEndLine_def afterLastEnd_Cons)
    qed
  qed
qed

section \<open>Models and structures of a PDB file\<close>

text \<open>
  Claim C4. A PDB file whose header has an \<open>EXPDTA\<close> line that includes \<open>NMR\<close>, with
  any number of \<open>MODEL\<close>/\<open>ENDMDL\<close> blocks (a block holds at least one atom line, so an
  atom line stands before the first terminator line): \<open>parsePdbData\<close> pushes exactly one
  structure, under the caller's identifier, and loads the atom lines before the first
  terminator line only.
\<close>

theorem nmr_first_model_only:
  assumes "isNmr (splitLines pdbText)"
    and "filter isAtomLine (takeWhile (\<lambda>l. substr l 0 3 \<noteq> ''END'') (splitLines pdbText)) \<noteq> []"
  shows "structures (soup (PdbParser_parsePdbData pdbText pdbId p)) =
           structures (soup p) @ [(pdbId, PdbParser_parseTitle (splitLines pdbText))] \<and>
         length (atoms (soup (PdbParser_parsePdbData pdbText pdbId p))) =
           length (atoms (soup p)) +
           length (filter isAtomLine (takeWhile (\<lambda>l. substr l 0 3 \<noteq> ''END'') (splitLines pdbText)))"
proof -
  let ?ls = "splitLines pdbText"
  let ?m = "filter isAtomLine (takeWhile (\<lambda>l. substr l 0 3 \<noteq> ''END'') ?ls)"
  have sm: "splitModels True ?ls [[]] 0 = ([?m], 0)"
    using splitModels_nmr[of 0 "[[]]" ?ls] by simp
  have pd: "PdbParser_parsePdbData pdbText pdbId p =
              loadModels ?ls pdbId (PdbParser_parseTitle ?ls) 1 [?m] 0 p"
    using assms sm by (simp add: PdbParser_parsePdbData_def Let_def splitLines_nonempty)
  show ?thesis
    unfolding pd by (simp add: loadModel_frame)
qed

theorem nmr_first_model_only_witness:
  "isNmr (splitLines nmrExample) \<and>
   filter isAtomLine (takeWhile (\<lambda>l. substr l 0 3 \<noteq> ''END'') (splitLines nmrExample)) \<noteq> [] \<and>
   structures (soup (PdbParser_parsePdbData nmrExample ''2abc'' (newParser emptySoup))) =
     [(''2abc'', [])] \<and>
   length (atoms (soup (PdbParser_parsePdbData nmrExample ''2abc'' (newParser emptySoup)))) = 1"
proof -
  have h1: "isNmr (splitLines nmrExample)" by code_simp
  have h2: "filter isAtomLine (takeWhile (\<lambda>l. substr l 0 3 \<noteq> ''END'') (splitLines nmrExample)) \<noteq> []"
    by code_simp
  have e1: "structures (soup (newParser emptySoup)) @
              [(''2abc'', PdbParser_parseTitle (splitLines nmrExample))] = [(''2abc'', [])]"
    by code_simp
  have e2: "length (atoms (soup (newParser emptySoup))) +
            length (filter isAtomLine
              (takeWhile (\<lambda>l. substr l 0 3 \<noteq> ''END'') (splitLines nmrExample))) = 1"
    by code_simp
  from nmr_first_model_only[OF h1 h2, of "''2abc''" "newParser emptySoup"] h1 h2 e1 e2
  show ?thesis by (simp only: simp_thms)
qed

text \<open>
  Claim C5. A PDB file with no NMR header: with \<open>n\<close> terminator lines and no atom line
  after the last of them (a trailing empty model, which is discarded), \<open>parsePdbData\<close>
  pushes \<open>n\<close> structures; an atom line after the last terminator makes one structure
  more. When more than one structure is pushed, their identifiers are the caller's
  identifier followed by \<open>[1]\<close>, \<open>[2]\<close>, ... in file order. Three \<open>MODEL\<close>/\<open>END\<close>
  blocks give \<open>[1]\<close>, \<open>[2]\<close>, \<open>[3]\<close>.
\<close>

theorem multi_model_ids:
  assumes "\<not> isNmr (splitLines pdbText)"
  shows "structures (soup (PdbParser_parsePdbData pdbText pdbId p)) =
           structures (soup p) @
           map (\<lambda>k. (if 1 < length (filter isEndLine (splitLines pdbText)) +
                              (if filter isAtomLine (afterLastEnd (splitLines pdbText)) = [] then 0 else 1)
                       then pdbId @ ''['' @ showNat (k + 1) @ '']'' else pdbId,
                       PdbParser_parseTitle (splitLines pdbText)))
             [0 ..< length (filter isEndLine (splitLines pdbText)) +
                    (if filter isAtomLine (afterLastEnd (splitLines pdbText)) = [] then 0 else 1)] \<and>
         (length (filter isEndLine (splitLines pdbText)) = 3 \<and>
          filter isAtomLine (afterLastEnd (splitLines pdbText)) = [] \<longrightarrow>
            structures (soup (PdbParser_parsePdbData pdbText pdbId p)) =
              structures (soup p) @
              [(pdbId @ ''[1]'', PdbParser_parseTitle (splitLines pdbText)),
               (pdbId @ ''[2]'', PdbParser_parseTitle (splitLines pdbText)),
               (pdbId @ ''[3]'', PdbParser_parseTitle (splitLines pdbText))])"
proof -
  let ?ls = "splitLines pdbText"
  let ?n = "length (filter isEndLine ?ls)"
  obtain ms i where sm: "splitModels False ?ls [[]] 0 = (ms, i)" by (cases "splitModels False ?ls [[]] 0")
  from splitModels_count[of "[[]]" ?ls] sm
  have i: "i = ?n" and len: "length ms = ?n + 1" by simp_all
  from splitModels_last[of "[[]]" ?ls] sm
  have "last ms = (if \<exists>x\<in>set ?ls. isEndLine x then filter isAtomLine (afterLastEnd ?ls)
                   else filter isAtomLine ?ls)" by simp
  then have lst: "last ms = filter isAtomLine (afterLastEnd ?ls)"
    by (simp add: afterLastEnd_none)
  from len have ne: "ms \<noteq> []" by auto
  from i len ne have nth: "ms ! i = last ms" by (simp add: last_conv_nth)
  let ?ms' = "if length (ms ! i) = 0 then butlast ms else ms"
  have len': "length ?ms' = ?n + (if filter isAtomLine (afterLastEnd ?ls) = [] then 0 else 1)"
    using nth lst len by simp
  have pd: "PdbParser_parsePdbData pdbText pdbId p =
              loadModels ?ls pdbId (PdbParser_parseTitle ?ls) (length ?ms') ?ms' 0 p"
    using assms sm by (simp add: PdbParser_parsePdbData_def Let_def splitLines_nonempty)
  have gen: "structures (soup (PdbParser_parsePdbData pdbText pdbId p)) =
           structures (soup p) @
           map (\<lambda>k. (if 1 < ?n + (if filter isAtomLine (afterLastEnd ?ls) = [] then 0 else 1)
                       then pdbId @ ''['' @ showNat (k + 1) @ '']'' else pdbId,
                       PdbParser_parseTitle ?ls))
             [0 ..< ?n + (if filter isAtomLine (afterLastEnd ?ls) = [] then 0 else 1)]"
    unfolding pd loadModels_structures len' by simp
  have three: "[0 ..< 3] = [0, Suc 0, Suc (Suc 0)]" by (simp add: upt_rec numeral_3_eq_3)
  have digits: "showNat (Suc 0) = ''1''" "showNat (Suc (Suc 0)) = ''2''"
    "showNat (Suc (Suc (Suc 0))) = ''3''" by code_simp+
  have "structures (soup (PdbParser_parsePdbData pdbText pdbId p)) =
          structures (soup p) @
          [(pdbId @ ''[1]'', PdbParser_parseTitle ?ls), (pdbId @ ''[2]'', PdbParser_parseTitle ?ls),
           (pdbId @ ''[3]'', PdbParser_parseTitle ?ls)]"
    if "?n = 3" "filter isAtomLine (afterLastEnd ?ls) = []"
    unfolding gen using that three digits by (simp del: showNat.simps)
  with gen show ?thesis by blast
qed

theorem multi_model_ids_witness:
  "\<not> isNmr (splitLines threeModelExample) \<and>
   length (filter isEndLine (splitLines threeModelExample)) = 3 \<and>
   filter isAtomLine (afterLastEnd (splitLines threeModelExample)) = [] \<and>
   structures (soup (PdbParser_parsePdbData threeModelExample ''1abc'' (newParser emptySoup))) =
     [(''1abc[1]'', ''THREE MODELS''), (''1abc[2]'', ''THREE MODELS''), (''1abc[3]'', ''THREE MODELS'')]"
proof -
  have h: "\<not> isNmr (splitLines threeModelExample)" by code_simp
  have n: "length (filter isEndLine (splitLines threeModelExample)) = 3" by code_simp
  have t: "filter isAtomLine (afterLastEnd (splitLines threeModelExample)) = []" by code_simp
  have s: "structures (soup (PdbParser_parsePdbData threeModelExample ''1abc'' (newParser emptySoup))) =
     [(''1abc[1]'', ''THREE MODELS''), (''1abc[2]'', ''THREE MODELS''), (''1abc[3]'', ''THREE MODELS'')]"
    by (subst multi_model_ids[OF h, THEN conjunct1]) code_simp
  from h n t s show ?thesis by (simp only: simp_thms)
qed

section \<open>Empty and corrupted input\<close>

text \<open>
  Claim C7, evaluated at the empty text. \<open>split\<close> gives one (empty) line, so the guard
  \<open>lines.length === 0\<close> does not fire: \<open>CifParser.parsePdbData\<close> pushes a structure, and
  neither parser records \<open>No atom lines\<close>.
\<close>

theorem empty_input_not_reported:
  "structures (soup (CifParser_parsePdbData [] ''1abc'' (newParser emptySoup))) = [(''1abc'', [])] \<and>
   parsingError (CifParser_parsePdbData [] ''1abc'' (newParser emptySoup)) = Undefined \<and>
   error (CifParser_parsePdbData [] ''1abc'' (newParser emptySoup)) = [] \<and>
   structures (soup (PdbParser_parsePdbData [] ''1abc'' (newParser emptySoup))) = [] \<and>
   parsingError (PdbParser_parsePdbData [] ''1abc'' (newParser emptySoup)) = Undefined \<and>
   error (PdbParser_parsePdbData [] ''1abc'' (newParser emptySoup)) = []"
  by code_simp

text \<open>
  Claim C1, evaluated at a file of three atom lines whose second line has letters for
  coordinates: both parsers hand three atoms to the store, the second with \<open>NaN\<close>
  coordinates, and record no error.
\<close>

theorem corrupted_line_not_dropped:
  "length (atoms (soup (PdbParser_parsePdbData corruptedPdbExample ''1abc'' (newParser emptySoup)))) = 3 \<and>
   a_x (atoms (soup (PdbParser_parsePdbData corruptedPdbExample ''1abc'' (newParser emptySoup))) ! 1) = NaN \<and>
   error (PdbParser_parsePdbData corruptedPdbExample ''1abc'' (newParser emptySoup)) = [] \<and>
   length (atoms (soup (CifParser_parsePdbData corruptedCifExample ''1abc'' (newParser emptySoup)))) = 3 \<and>
   a_x (atoms (soup (CifParser_parsePdbData corruptedCifExample ''1abc'' (newParser emptySoup))) ! 1) = NaN \<and>
   error (CifParser_parsePdbData corruptedCifExample ''1abc'' (newParser emptySoup)) = []"
  by code_simp

section \<open>The secondary-structure flag of the mmCIF parser\<close>

lemma helixRow_frame [simp]:
  "hasSecondaryStructure (helixRow l p) = True"
  "structures (soup (helixRow l p)) = structures (soup p)"
  "atoms (soup (helixRow l p)) = atoms (soup p)"
  "error (helixRow l p) = error p"
  "parsingError (helixRow l p) = parsingError p"
  by (simp_all add: helixRow_def)

lemma sheetRow_frame [simp]:
  "hasSecondaryStructure (sheetRow l p) = True"
  "structures (soup (sheetRow l p)) = structures (soup p)"
  "atoms (soup (sheetRow l p)) = atoms (soup p)"
  "error (sheetRow l p) = error p"
  "parsingError (sheetRow l p) = parsingError p"
  by (simp_all add: sheetRow_def)

lemma helixLoop_flag:
  "hasSecondaryStructure (helixLoop ls b p) =
     (hasSecondaryStructure p \<or>
      (\<exists>l\<in>set (takeWhile (\<lambda>l. \<not> startsWith l ''#'')
                  (if b then ls
                   else dropWhile (\<lambda>l. \<not> startsWith l ''_struct_conf.pdbx_PDB_helix_id'') ls)).
          \<not> startsWith l ''_struct_conf''))"
proof (induction ls arbitrary: b p)
  case Nil
  show ?case by simp
next
  case (Cons l ls)
  show ?case
  proof (cases "b \<or> startsWith l ''_struct_conf.pdbx_PDB_helix_id''")
    case False
    then show ?thesis using Cons.IH[of False p] by simp
  next
    case True
    show ?thesis
    proof (cases "startsWith l ''#''")
      case h: True
      with True show ?thesis by auto
    next
      case h: False
      show ?thesis
      proof (cases "startsWith l ''_struct_conf''")
        case c: True
        with True h show ?thesis using Cons.IH[of True p] by auto
      next
        case c: False
        with True h show ?thesis using Cons.IH[of True "helixRow l p"] by auto
      qed
    qed
  qed
qed

lemma sheetLoop_flag:
  "hasSecondaryStructure (sheetLoop ls b p) =
     (hasSecondaryStructure p \<or>
      (\<exists>l\<in>set (takeWhile (\<lambda>l. \<not> startsWith l ''#'')
                  (if b then ls
                   else dropWhile (\<lambda>l. \<not> startsWith l ''_struct_sheet_range.sheet_id'') ls)).
          substr l 0 6 \<noteq> ''_struct''))"
proof (induction ls arbitrary: b p)
  case Nil
  show ?case by simp
next
  case (Cons l ls)
  show ?case
  proof (cases "b \<or> startsWith l ''_struct_sheet_range.sheet_id''")
    case False
    then show ?thesis using Cons.IH[of False p] by simp
  next
    case True
    show ?thesis
    proof (cases "startsWith l ''#''")
      case h: True
      with True show ?thesis by auto
    next
      case h: False
      show ?thesis
      proof (cases "substr l 0 6 \<noteq> ''_struct''")
        case c: False
        with True h show ?thesis using Cons.IH[of True p] by auto
      next
        case c: True
        with True h show ?thesis using Cons.IH[of True "sheetRow l p"] by auto
      qed
    qed
  qed
qed

text \<open>
  Claim C10, amended. After \<open>CifParser.parseSecondaryStructureLines\<close> (so after
  \<open>CifParser.parsePdbData\<close>) the flag \<open>hasSecondaryStructure\<close> is true if and only if the
  first helix loop (from the first line starting with \<open>_struct_conf.pdbx_PDB_helix_id\<close> to
  the next line starting with \<open>#\<close>) holds a line not starting with \<open>_struct_conf\<close>, or
  the first sheet loop (from the first line starting with \<open>_struct_sheet_range.sheet_id\<close>)
  holds a line whose first six characters are not \<open>_struct\<close>. The flag the parser had
  before does not matter (it is reset), nor do the residues of the store.
\<close>

theorem cif_flag_first_loops:
  "hasSecondaryStructure (CifParser_parseSecondaryStructureLines ls p) =
     ((\<exists>l\<in>set (firstLoop ''_struct_conf.pdbx_PDB_helix_id'' ls). \<not> startsWith l ''_struct_conf'') \<or>
      (\<exists>l\<in>set (firstLoop ''_struct_sheet_range.sheet_id'' ls). substr l 0 6 \<noteq> ''_struct'')) \<and>
   hasSecondaryStructure (CifParser_parsePdbData pdbText pdbId p) =
     ((\<exists>l\<in>set (firstLoop ''_struct_conf.pdbx_PDB_helix_id'' (splitLines pdbText)).
          \<not> startsWith l ''_struct_conf'') \<or>
      (\<exists>l\<in>set (firstLoop ''_struct_sheet_range.sheet_id'' (splitLines pdbText)).
          substr l 0 6 \<noteq> ''_struct''))"
  by (simp add: CifParser_parsePdbData_def Let_def splitLines_nonempty
        CifParser_parseSecondaryStructureLines_def CifParser_parseHelixLines_def
        CifParser_parseSheetLines_def helixLoop_flag sheetLoop_flag firstLoop_def)

theorem cif_flag_first_loops_witness:
  "hasSecondaryStructure (CifParser_parsePdbData helixExample ''1abc'' (newParser emptySoup)) = True \<and>
   hasSecondaryStructure (CifParser_parseSecondaryStructureLines (splitLines twoHelixLoopsExample)
      ((newParser emptySoup)\<lparr>hasSecondaryStructure := True\<rparr>)) = False"
proof -
  have a: "hasSecondaryStructure (CifParser_parsePdbData helixExample ''1abc'' (newParser emptySoup)) = True"
    by (subst cif_flag_first_loops[THEN conjunct2]) code_simp
  have b: "hasSecondaryStructure (CifParser_parseSecondaryStructureLines (splitLines twoHelixLoopsExample)
      ((newParser emptySoup)\<lparr>hasSecondaryStructure := True\<rparr>)) = False"
    by (subst cif_flag_first_loops[THEN conjunct1]) code_simp
  from a b show ?thesis by (simp only: simp_thms)
qed

text \<open>
  Claim C10 as stated ("some helix loop") fails: of two helix loops the second holds a data
  row, the first none, and the flag stays false, since the scan ends at the first \<open>#\<close>.
\<close>

theorem cif_flag_some_loop_counterexample:
  "allLoops ''_struct_conf.pdbx_PDB_helix_id'' (splitLines twoHelixLoopsExample) =
     [[''_struct_conf.pdbx_PDB_helix_id''],
      [''_struct_conf.pdbx_PDB_helix_id'', ''HELX_P HELX_P1 1 ALA A 10 ? ALA A 15'']] \<and>
   \<not> startsWith ''HELX_P HELX_P1 1 ALA A 10 ? ALA A 15'' ''_struct_conf'' \<and>
   hasSecondaryStructure (CifParser_parsePdbData twoHelixLoopsExample ''1abc'' (newParser emptySoup)) = False"
  by code_simp

section \<open>The title of an mmCIF file\<close>

lemma dropWhile_id: "xs = [] \<or> \<not> P (hd xs) \<Longrightarrow> dropWhile P xs = xs"
  by (cases xs) auto

lemma dropWhile_head: "dropWhile P xs = [] \<or> \<not> P (hd (dropWhile P xs))"
  by (metis hd_dropWhile)

lemma trim_ends:
  "trim s = [] \<or> (\<not> isWhitespace (hd (trim s)) \<and> \<not> isWhitespace (last (trim s)))"
proof (cases "dropWhile isWhitespace s")
  case Nil
  show ?thesis unfolding trim_def Nil by simp
next
  case (Cons h t)
  then have nh: "\<not> isWhitespace h" using dropWhile_head[of isWhitespace s] by simp
  have "dropWhile isWhitespace (rev t @ [h]) = dropWhile isWhitespace (rev t) @ [h]"
    using nh by (simp add: dropWhile_append3)
  then have tr: "trim s = h # rev (dropWhile isWhitespace (rev t))"
    using Cons by (simp add: trim_def)
  have "\<not> isWhitespace (last (trim s))"
  proof (cases "dropWhile isWhitespace (rev t)")
    case Nil
    with tr nh show ?thesis by simp
  next
    case c: (Cons a u)
    then have "\<not> isWhitespace a" using dropWhile_head[of isWhitespace "rev t"] by simp
    with tr c show ?thesis by simp
  qed
  with tr nh show ?thesis by simp
qed

lemma trim_idem: "trim (trim s) = trim s"
proof (cases "trim s = []")
  case True
  have "trim [] = []" by (simp add: trim_def)
  with True show ?thesis by (simp only:)
next
  case False
  with trim_ends[of s] have h: "\<not> isWhitespace (hd (trim s))" and l: "\<not> isWhitespace (last (trim s))"
    by simp_all
  have 1: "dropWhile isWhitespace (trim s) = trim s"
    using h by (intro dropWhile_id) simp
  have "hd (rev (trim s)) = last (trim s)" using False by (simp add: hd_rev)
  then have 2: "dropWhile isWhitespace (rev (trim s)) = rev (trim s)"
    using l by (intro dropWhile_id) simp
  show ?thesis
    by (subst (1) trim_def) (simp only: 1 2 rev_rev_ident)
qed

lemma replaceFirst_title:
  assumes "startsWith l ''_struct.title''"
  shows "replaceFirst l ''_struct.title'' [] = drop 13 l"
proof (cases l)
  case Nil
  with assms show ?thesis by (simp add: startsWith_def)
next
  case (Cons c cs)
  have len: "length ''_struct.title'' = 13" by simp
  have "replaceFirst (c # cs) ''_struct.title'' [] = [] @ drop (length ''_struct.title'') (c # cs)"
    using assms Cons by (simp only: replaceFirst.simps if_True)
  then show ?thesis unfolding len Cons by simp
qed

lemma titleLoop_skip:
  "\<forall>j<i. \<not> startsWith (lines ! j) ''_struct.title'' \<Longrightarrow> i < length lines \<Longrightarrow> k \<le> i \<Longrightarrow>
   titleLoop lines k = titleLoop lines i"
proof (induction "i - k" arbitrary: k)
  case 0
  then show ?case by simp
next
  case (Suc d)
  then have k: "k < i" "k < length lines" by simp_all
  from Suc.prems(1) k have nk: "\<not> startsWith (lines ! k) ''_struct.title''" by simp
  from Suc.prems(1) k have np: "k > 0 \<longrightarrow> \<not> startsWith (lines ! (k - 1)) ''_struct.title''" by simp
  have "titleLoop lines k = titleLoop lines (k + 1)"
    using k nk np by (subst titleLoop.simps) auto
  also have "\<dots> = titleLoop lines i"
    using Suc.hyps(2) Suc.prems k by (intro Suc.hyps(1)) simp_all
  finally show ?case .
qed

text \<open>
  Claim C9. Let line \<open>i\<close> be the first line starting with \<open>_struct.title\<close>. When something
  but whitespace follows the key on that line, \<open>parseTitle\<close> returns it, trimmed and
  without a pair of surrounding quotes (whatever the later lines are: the first occurrence
  wins). When nothing follows the key and the next line is a value (not itself a key line
  with a value), \<open>parseTitle\<close> returns the next line, trimmed and without a pair of
  surrounding quotes. A pair of equal quote characters around a text is what
  \<open>removeQuotes\<close> strips.
\<close>

theorem cif_title:
  assumes "i < length lines"
    and "\<forall>j<i. \<not> startsWith (lines ! j) ''_struct.title''"
    and "startsWith (lines ! i) ''_struct.title''"
  shows "(trim (drop 13 (lines ! i)) \<noteq> [] \<longrightarrow>
            CifParser_parseTitle lines = removeQuotesStr (trim (drop 13 (lines ! i)))) \<and>
         (trim (drop 13 (lines ! i)) = [] \<and> i + 1 < length lines \<and>
          \<not> (startsWith (lines ! (i + 1)) ''_struct.title'' \<and> trim (drop 13 (lines ! (i + 1))) \<noteq> []) \<longrightarrow>
            CifParser_parseTitle lines = removeQuotesStr (trim (lines ! (i + 1)))) \<and>
         (q = CHR 0x22 \<or> q = CHR 0x27 \<longrightarrow> removeQuotesStr (q # s @ [q]) = s)"
proof -
  note rf = replaceFirst_title
  have start: "CifParser_parseTitle lines = titleLoop lines i"
    using titleLoop_skip[OF assms(2) assms(1), of 0] by (simp add: CifParser_parseTitle_def)
  have one: "trim (drop 13 (lines ! i)) \<noteq> [] \<Longrightarrow>
             titleLoop lines i = removeQuotesStr (trim (drop 13 (lines ! i)))"
    using assms(1,3) by (subst titleLoop.simps) (simp add: rf trim_idem)
  have prev: "i > 0 \<longrightarrow> \<not> startsWith (lines ! (i - 1)) ''_struct.title''"
    using assms(2) by simp
  have two: "titleLoop lines i = removeQuotesStr (trim (lines ! (i + 1)))"
    if e: "trim (drop 13 (lines ! i)) = []" and n: "i + 1 < length lines"
      and v: "\<not> (startsWith (lines ! (i + 1)) ''_struct.title'' \<and> trim (drop 13 (lines ! (i + 1))) \<noteq> [])"
  proof -
    have "titleLoop lines i = titleLoop lines (i + 1)"
      using assms(1,3) e prev by (subst titleLoop.simps) (auto simp: rf)
    also have "\<dots> = removeQuotesStr (trim (lines ! (i + 1)))"
    proof (cases "startsWith (lines ! (i + 1)) ''_struct.title''")
      case True
      with v have "trim (drop 13 (lines ! (i + 1))) = []" by simp
      with True n assms(3) show ?thesis by (subst titleLoop.simps) (simp add: rf)
    next
      case False
      with n assms(3) show ?thesis by (subst titleLoop.simps) simp
    qed
    finally show ?thesis .
  qed
  have three: "q = CHR 0x22 \<or> q = CHR 0x27 \<Longrightarrow> removeQuotesStr (q # s @ [q]) = s"
    by (auto simp: removeQuotesStr_def charAt_def nth_append)
  from start one two three show ?thesis by auto
qed

theorem cif_title_witness:
  "CifParser_parseTitle (splitLines titleExample) = ''My Protein'' \<and>
   CifParser_parseTitle (splitLines titleOneLineExample) = ''My Protein''"
proof -
  have l: "splitLines titleExample = [''data_1ABC'', ''_struct.title'', [CHR 0x27] @ ''My Protein'' @ [CHR 0x27], '''']"
    by code_simp
  have h1: "1 < length (splitLines titleExample)" by code_simp
  have h2: "\<forall>j<1. \<not> startsWith (splitLines titleExample ! j) ''_struct.title''"
    unfolding l by (simp add: startsWith_def)
  have h3: "startsWith (splitLines titleExample ! 1) ''_struct.title''" by code_simp
  have h4: "trim (drop 13 (splitLines titleExample ! 1)) = [] \<and> 1 + 1 < length (splitLines titleExample) \<and>
          \<not> (startsWith (splitLines titleExample ! (1 + 1)) ''_struct.title'' \<and>
             trim (drop 13 (splitLines titleExample ! (1 + 1))) \<noteq> [])" by code_simp
  have e: "removeQuotesStr (trim (splitLines titleExample ! (1 + 1))) = ''My Protein''" by code_simp
  from cif_title[OF h1 h2 h3, THEN conjunct2, THEN conjunct1] h4
  have a: "CifParser_parseTitle (splitLines titleExample) = removeQuotesStr (trim (splitLines titleExample ! (1 + 1)))"
    by blast
  have l': "splitLines titleOneLineExample =
     [''data_1ABC'', ''_struct.title   '' @ [CHR 0x22] @ ''My Protein'' @ [CHR 0x22], ''_struct.title Other'', '''']"
    by code_simp
  have g1: "1 < length (splitLines titleOneLineExample)" by code_simp
  have g2: "\<forall>j<1. \<not> startsWith (splitLines titleOneLineExample ! j) ''_struct.title''"
    unfolding l' by (simp add: startsWith_def)
  have g3: "startsWith (splitLines titleOneLineExample ! 1) ''_struct.title''" by code_simp
  have g4: "trim (drop 13 (splitLines titleOneLineExample ! 1)) \<noteq> []" by code_simp
  have f: "removeQuotesStr (trim (drop 13 (splitLines titleOneLineExample ! 1))) = ''My Protein''" by code_simp
  from cif_title[OF g1 g2 g3, THEN conjunct1] g4
  have b: "CifParser_parseTitle (splitLines titleOneLineExample) =
             removeQuotesStr (trim (drop 13 (splitLines titleOneLineExample ! 1)))"
    by blast
  from a e b f show ?thesis by (simp only: simp_thms)
qed

section \<open>The walk over a residue range\<close>

lemma walk_length [simp]: "length (walk code c e i0 rs) = length rs"
proof (induction code c e i0 rs rule: walk.induct)
  case (1 code c e i0 rs)
  show ?case
  proof (cases "i0 < length rs \<and> jsLe (r_resNum (rs ! i0)) e \<and> c = r_chain (rs ! i0)")
    case True
    then show ?thesis using "1.IH" by (subst walk.simps) simp
  next
    case False
    then show ?thesis by (subst walk.simps) auto
  qed
qed

lemma reached_cong:
  assumes "length rs' = length rs"
    and "\<forall>j<length rs. r_resNum (rs' ! j) = r_resNum (rs ! j) \<and> r_chain (rs' ! j) = r_chain (rs ! j)"
  shows "reached c e rs' i0 i = reached c e rs i0 i"
  using assms by (auto simp: reached_def)

lemma reached_start:
  "reached c e rs i0 i0 = (i0 < length rs \<and> jsLe (r_resNum (rs ! i0)) e \<and> c = r_chain (rs ! i0))"
  by (auto simp: reached_def)

lemma reached_step:
  assumes "reached c e rs i0 i0" and "i \<noteq> i0"
  shows "reached c e rs i0 i = reached c e rs (i0 + 1) i"
proof
  assume "reached c e rs i0 i"
  with assms(2) show "reached c e rs (i0 + 1) i" by (auto simp: reached_def)
next
  assume r: "reached c e rs (i0 + 1) i"
  have "\<And>j. i0 \<le> j \<Longrightarrow> j = i0 \<or> i0 + 1 \<le> j" by auto
  with r assms(1) show "reached c e rs i0 i"
    unfolding reached_def by (metis Suc_leD Suc_eq_plus1 atLeastAtMost_iff)
qed

lemma reached_not_start:
  "\<not> reached c e rs i0 i0 \<Longrightarrow> \<not> reached c e rs i0 i"
  by (auto simp: reached_def)

lemma walk_nth:
  "i < length rs \<Longrightarrow>
   walk code c e i0 rs ! i = (if reached c e rs i0 i then (rs ! i)\<lparr>r_ss := code\<rparr> else rs ! i)"
proof (induction code c e i0 rs rule: walk.induct)
  case (1 code c e i0 rs)
  show ?case
  proof (cases "reached c e rs i0 i0")
    case False
    then have "walk code c e i0 rs = rs" by (subst walk.simps) (auto simp: reached_start)
    with False reached_not_start[of c e rs i0 i] show ?thesis by simp
  next
    case True
    let ?rs = "rs[i0 := (rs ! i0)\<lparr>r_ss := code\<rparr>]"
    from True have ok: "i0 < length rs \<and> jsLe (r_resNum (rs ! i0)) e \<and> c = r_chain (rs ! i0)"
      by (simp add: reached_start)
    then have w: "walk code c e i0 rs = walk code c e (i0 + 1) ?rs"
      by (subst walk.simps) simp
    have cong: "reached c e ?rs (i0 + 1) i = reached c e rs (i0 + 1) i"
      using ok by (intro reached_cong) (auto simp: nth_list_update)
    from "1.IH"[OF ok] "1.prems"
    have ih: "walk code c e (i0 + 1) ?rs ! i =
                (if reached c e ?rs (i0 + 1) i then (?rs ! i)\<lparr>r_ss := code\<rparr> else ?rs ! i)"
      by simp
    show ?thesis
    proof (cases "i = i0")
      case e: True
      have "\<not> reached c e rs (i0 + 1) i0" by (simp add: reached_def)
      with e True ok ih w cong show ?thesis by simp
    next
      case ne: False
      with reached_step[OF True ne] ih w cong "1.prems" show ?thesis by simp
    qed
  qed
qed

lemma walk_fields:
  "i < length rs \<Longrightarrow>
   r_resNum (walk code c e i0 rs ! i) = r_resNum (rs ! i) \<and>
   r_chain (walk code c e i0 rs ! i) = r_chain (rs ! i)"
  by (simp add: walk_nth)

lemma walks_nth:
  "i < length rs \<Longrightarrow>
   length (foldl (\<lambda>rs iRes. walk code c e iRes rs) rs idxs) = length rs \<and>
   foldl (\<lambda>rs iRes. walk code c e iRes rs) rs idxs ! i =
     (if \<exists>i0\<in>set idxs. reached c e rs i0 i then (rs ! i)\<lparr>r_ss := code\<rparr> else rs ! i)"
proof (induction idxs arbitrary: rs)
  case Nil
  then show ?case by simp
next
  case (Cons i0 idxs)
  let ?rs = "walk code c e i0 rs"
  have cong: "\<And>k. reached c e ?rs k i = reached c e rs k i"
    by (rule reached_cong) (simp_all add: walk_fields)
  from Cons.prems have "i < length ?rs" by simp
  from Cons.IH[OF this] cong Cons.prems show ?case
    by (auto simp: walk_nth)
qed

lemma assignRange_residues:
  "length (residues (assignRange code c s e sp)) = length (residues sp) \<and>
   (\<forall>i<length (residues sp).
      residues (assignRange code c s e sp) ! i =
        (if \<exists>i0\<in>set (findResidueIndices (iStructure sp) c s sp). reached c e (residues sp) i0 i
         then (residues sp ! i)\<lparr>r_ss := code\<rparr> else residues sp ! i))"
proof (cases "residues sp = []")
  case True
  then show ?thesis by (simp add: assignRange_def findResidueIndices_def)
next
  case False
  then have "0 < length (residues sp)" by simp
  from walks_nth[OF this, of code c e "findResidueIndices (iStructure sp) c s sp"]
  have len: "length (residues (assignRange code c s e sp)) = length (residues sp)"
    by (simp add: assignRange_def)
  show ?thesis using len walks_nth[of _ "residues sp" code c e "findResidueIndices (iStructure sp) c s sp"]
    by (simp add: assignRange_def)
qed

lemma ssLine_other:
  "substr l 0 5 \<noteq> ''HELIX'' \<Longrightarrow> substr l 0 5 \<noteq> ''SHEET'' \<Longrightarrow> PdbParser_ssLine p l = p"
  by (simp add: PdbParser_ssLine_def)

lemma foldl_ssLine_other:
  "\<forall>l\<in>set ls. substr l 0 5 \<noteq> ''HELIX'' \<and> substr l 0 5 \<noteq> ''SHEET'' \<Longrightarrow>
   foldl PdbParser_ssLine p ls = p"
  by (induction ls arbitrary: p) (simp_all add: ssLine_other)

text \<open>
  Claim C2, amended. A file whose one secondary-structure record is a \<open>HELIX\<close> line with
  chain \<open>c\<close> (column 19), start \<open>s\<close> (columns 21 to 24) and end \<open>e\<close> (columns 33 to 36):
  after \<open>parseSecondaryStructureLines\<close> the residues that carry the code \<open>H\<close> by this
  record are exactly those reached by walking forward from an index that
  \<open>findResidueIndices\<close> returns for \<open>(c, s)\<close>, as long as the residue number is not above
  \<open>e\<close> and the chain is \<open>c\<close>; the walk halts at the first residue whose number exceeds
  \<open>e\<close> or whose chain differs, or at the end of the residues. Every other residue, and
  every other field, is as it was.
\<close>

theorem helix_range:
  assumes "substr line 0 5 = ''HELIX''"
    and "\<forall>l\<in>set (pre @ post). substr l 0 5 \<noteq> ''HELIX'' \<and> substr l 0 5 \<noteq> ''SHEET''"
  shows "length (residues (soup (PdbParser_parseSecondaryStructureLines (pre @ line # post) p))) =
           length (residues (soup p)) \<and>
         (\<forall>i<length (residues (soup p)).
            residues (soup (PdbParser_parseSecondaryStructureLines (pre @ line # post) p)) ! i =
              (if \<exists>i0\<in>set (findResidueIndices (iStructure (soup p)) (Str (substr line 19 1))
                               (parseInt (Str (substr line 21 4))) (soup p)).
                    reached (Str (substr line 19 1)) (parseInt (Str (substr line 33 4)))
                      (residues (soup p)) i0 i
               then (residues (soup p) ! i)\<lparr>r_ss := ''H''\<rparr>
               else residues (soup p) ! i))"
proof -
  from assms(2) have pre: "\<And>q. foldl PdbParser_ssLine q pre = q"
    and post: "\<And>q. foldl PdbParser_ssLine q post = q"
    by (simp_all add: foldl_ssLine_other)
  have "soup (PdbParser_parseSecondaryStructureLines (pre @ line # post) p) =
          assignRange ''H'' (Str (substr line 19 1)) (parseInt (Str (substr line 21 4)))
            (parseInt (Str (substr line 33 4))) (soup p)"
    using assms(1)
    by (simp add: PdbParser_parseSecondaryStructureLines_def pre post PdbParser_ssLine_def
          assignResidueProperties_def)
  then show ?thesis using assignRange_residues by simp
qed

theorem helix_range_witness:
  "r_ss (residues (soup (PdbParser_parseSecondaryStructureLines ([] @ helixLine # helixWalkExample)
      helixWalkStore)) ! 0) = [] \<and>
   r_ss (residues (soup (PdbParser_parseSecondaryStructureLines ([] @ helixLine # helixWalkExample)
      helixWalkStore)) ! 1) = ''H'' \<and>
   r_ss (residues (soup (PdbParser_parseSecondaryStructureLines ([] @ helixLine # helixWalkExample)
      helixWalkStore)) ! 3) = ''H'' \<and>
   r_ss (residues (soup (PdbParser_parseSecondaryStructureLines ([] @ helixLine # helixWalkExample)
      helixWalkStore)) ! 4) = [] \<and>
   r_ss (residues (soup (PdbParser_parseSecondaryStructureLines ([] @ helixLine # helixWalkExample)
      helixWalkStore)) ! 5) = []"
proof -
  have h1: "substr helixLine 0 5 = ''HELIX''" by code_simp
  have h2: "\<forall>l\<in>set ([] @ helixWalkExample). substr l 0 5 \<noteq> ''HELIX'' \<and> substr l 0 5 \<noteq> ''SHEET''"
    by code_simp
  note T = helix_range[OF h1 h2, of helixWalkStore, THEN conjunct2, rule_format]
  have a0: "r_ss (residues (soup (PdbParser_parseSecondaryStructureLines ([] @ helixLine # helixWalkExample)
      helixWalkStore)) ! 0) = []"
    by (subst T) code_simp+
  have a1: "r_ss (residues (soup (PdbParser_parseSecondaryStructureLines ([] @ helixLine # helixWalkExample)
      helixWalkStore)) ! 1) = ''H''"
    by (subst T) code_simp+
  have a3: "r_ss (residues (soup (PdbParser_parseSecondaryStructureLines ([] @ helixLine # helixWalkExample)
      helixWalkStore)) ! 3) = ''H''"
    by (subst T) code_simp+
  have a4: "r_ss (residues (soup (PdbParser_parseSecondaryStructureLines ([] @ helixLine # helixWalkExample)
      helixWalkStore)) ! 4) = []"
    by (subst T) code_simp+
  have a5: "r_ss (residues (soup (PdbParser_parseSecondaryStructureLines ([] @ helixLine # helixWalkExample)
      helixWalkStore)) ! 5) = []"
    by (subst T) code_simp+
  from a0 a1 a3 a4 a5 show ?thesis by (simp only: simp_thms)
qed

text \<open>
  Claim C2 as stated ("whose residue numbers lie in [s, e]") fails: the walk has no lower
  bound. With the residues 10 and 3 of chain A, in this order, the record for the residues
  10 to 15 gives the code \<open>H\<close> to both.
\<close>

theorem helix_range_counterexample:
  "parseInt (Str (substr helixLine 21 4)) = JInt 10 \<and>
   parseInt (Str (substr helixLine 33 4)) = JInt 15 \<and>
   map r_resNum (residues (soup (PdbParser_parsePdbData helixBelowStartExample ''1abc''
      (newParser emptySoup)))) = [JInt 10, JInt 3] \<and>
   map r_chain (residues (soup (PdbParser_parsePdbData helixBelowStartExample ''1abc''
      (newParser emptySoup)))) = [Str ''A'', Str ''A''] \<and>
   map r_ss (residues (soup (PdbParser_parsePdbData helixBelowStartExample ''1abc''
      (newParser emptySoup)))) = [''H'', ''H''] \<and>
   \<not> (10::int) \<le> 3"
  by code_simp

section \<open>Residue numbers of an mmCIF file\<close>

lemma inferElem_resNum [simp]: "a_resNum (inferElem a) = a_resNum a"
  by (simp add: inferElem_def)

lemma CifParser_atomLine_ok:
  assumes "isAtomLine l" and "3 < length (splitTokens l)"
  shows "fst (CifParser_atomLine i l (st, p)) =
           snd (resolveResNum (tok (splitTokens l) 8) (tok (splitTokens l) 6)
                  (tok (splitTokens l) 7) (tok (splitTokens l) 5) (tok (splitTokens l) 16) st) \<and>
         (\<exists>a. atoms (soup (snd (CifParser_atomLine i l (st, p)))) = atoms (soup p) @ [a] \<and>
              a_resNum a =
                fst (resolveResNum (tok (splitTokens l) 8) (tok (splitTokens l) 6)
                       (tok (splitTokens l) 7) (tok (splitTokens l) 5) (tok (splitTokens l) 16) st))"
proof -
  obtain n st' where r: "resolveResNum (tok (splitTokens l) 8) (tok (splitTokens l) 6)
      (tok (splitTokens l) 7) (tok (splitTokens l) 5) (tok (splitTokens l) 16) st = (n, st')"
    by (cases "resolveResNum (tok (splitTokens l) 8) (tok (splitTokens l) 6)
      (tok (splitTokens l) 7) (tok (splitTokens l) 5) (tok (splitTokens l) 16) st")
  from assms(2) have t3: "tok (splitTokens l) 3 = Str (splitTokens l ! 3)" by (simp add: tok_def)
  show ?thesis
    using assms(1) r t3 by (simp add: CifParser_atomLine_def CifParser_readAtom_def)
qed

lemma tok_Str_length: "tok ts k = Str s \<Longrightarrow> k < length ts"
  by (simp add: tok_def split: if_splits)

lemma CifParser_atomLoop_append:
  "CifParser_atomLoop (xs @ ys) i sp = CifParser_atomLoop ys (i + length xs) (CifParser_atomLoop xs i sp)"
  by (induction xs arbitrary: i sp) simp_all

lemma sentinel_run:
  assumes "\<forall>l\<in>set run. isAtomLine l \<and> tok (splitTokens l) 8 = Str ''.'' \<and>
             tok (splitTokens l) 6 = c \<and> tok (splitTokens l) 7 = en \<and>
             tok (splitTokens l) 5 \<noteq> Str ''HOH''"
    and "lastChain st = c" and "lastEntity st = en"
  shows "fst (CifParser_atomLoop run i (st, p)) = st \<and>
         (\<exists>as. atoms (soup (snd (CifParser_atomLoop run i (st, p)))) = atoms (soup p) @ as \<and>
               map a_resNum as = replicate (length run) (nextResNum st))"
  using assms(1)
proof (induction run arbitrary: i p)
  case Nil
  show ?case by simp
next
  case (Cons l run)
  then have l: "isAtomLine l" "tok (splitTokens l) 8 = Str ''.''" "tok (splitTokens l) 6 = c"
    "tok (splitTokens l) 7 = en" "tok (splitTokens l) 5 \<noteq> Str ''HOH''" by simp_all
  from tok_Str_length[OF l(2)] have "3 < length (splitTokens l)" by simp
  from CifParser_atomLine_ok[OF l(1) this, of i st p] l assms(2,3)
  obtain a where a: "fst (CifParser_atomLine i l (st, p)) = st"
    "atoms (soup (snd (CifParser_atomLine i l (st, p)))) = atoms (soup p) @ [a]"
    "a_resNum a = nextResNum st"
    by (auto simp: resolveResNum_def)
  from a(1) have sp: "CifParser_atomLine i l (st, p) = (st, snd (CifParser_atomLine i l (st, p)))"
    by (cases "CifParser_atomLine i l (st, p)") simp
  from Cons.prems have "\<forall>l\<in>set run. isAtomLine l \<and> tok (splitTokens l) 8 = Str ''.'' \<and>
             tok (splitTokens l) 6 = c \<and> tok (splitTokens l) 7 = en \<and>
             tok (splitTokens l) 5 \<noteq> Str ''HOH''" by simp
  from Cons.IH[OF this, of "i + 1" "snd (CifParser_atomLine i l (st, p))"]
  obtain as where as: "fst (CifParser_atomLoop run (i + 1) (st, snd (CifParser_atomLine i l (st, p)))) = st"
    "atoms (soup (snd (CifParser_atomLoop run (i + 1) (st, snd (CifParser_atomLine i l (st, p)))))) =
       atoms (soup (snd (CifParser_atomLine i l (st, p)))) @ as"
    "map a_resNum as = replicate (length run) (nextResNum st)"
    by blast
  have loop: "CifParser_atomLoop (l # run) i (st, p) =
          CifParser_atomLoop run (i + 1) (st, snd (CifParser_atomLine i l (st, p)))"
    using sp by simp
  have "atoms (soup (snd (CifParser_atomLoop (l # run) i (st, p)))) = atoms (soup p) @ (a # as) \<and>
        map a_resNum (a # as) = replicate (length (l # run)) (nextResNum st)"
    unfolding loop using as(2,3) a(2,3) by simp
  moreover have "fst (CifParser_atomLoop (l # run) i (st, p)) = st"
    unfolding loop using as(1) .
  ultimately show ?case by blast
qed

text \<open>The first atom of a run, which may open the residue, and the run after it.\<close>

lemma sentinel_first:
  assumes "isAtomLine l" and "tok (splitTokens l) 8 = Str ''.''"
  shows "fst (CifParser_atomLine i l (st, p)) =
           (if \<not> (tok (splitTokens l) 6 = lastChain st \<and> tok (splitTokens l) 7 = lastEntity st) \<or>
               tok (splitTokens l) 5 = Str ''HOH''
            then advance (tok (splitTokens l) 6) (tok (splitTokens l) 7) st else st) \<and>
         (\<exists>a. atoms (soup (snd (CifParser_atomLine i l (st, p)))) = atoms (soup p) @ [a] \<and>
              a_resNum a =
                (if \<not> (tok (splitTokens l) 6 = lastChain st \<and> tok (splitTokens l) 7 = lastEntity st) \<or>
                    tok (splitTokens l) 5 = Str ''HOH''
                 then jsInc (nextResNum st) else nextResNum st))"
proof -
  from tok_Str_length[OF assms(2)] have "3 < length (splitTokens l)" by simp
  from CifParser_atomLine_ok[OF assms(1) this, of i st p] assms(2)
  show ?thesis by (cases "\<not> (tok (splitTokens l) 6 = lastChain st \<and> tok (splitTokens l) 7 = lastEntity st) \<or>
               tok (splitTokens l) 5 = Str ''HOH''") (simp_all add: resolveResNum_def)
qed

lemma explicit_line:
  assumes "isAtomLine l" and "3 < length (splitTokens l)" and "tok (splitTokens l) 8 \<noteq> Str ''.''"
  shows "fst (CifParser_atomLine i l (st, p)) =
           \<lparr>nextResNum = jsInc (parseInt (tok (splitTokens l) 16)),
            lastChain = tok (splitTokens l) 6, lastEntity = tok (splitTokens l) 7\<rparr> \<and>
         (\<exists>a. atoms (soup (snd (CifParser_atomLine i l (st, p)))) = atoms (soup p) @ [a] \<and>
              a_resNum a = parseInt (tok (splitTokens l) 16))"
  using CifParser_atomLine_ok[OF assms(1,2), of i st p] assms(3)
  by (simp add: resolveResNum_def)

lemma sentinel_run_opened:
  assumes "run \<noteq> []"
    and "\<forall>l\<in>set run. isAtomLine l \<and> tok (splitTokens l) 8 = Str ''.'' \<and>
             tok (splitTokens l) 6 = c \<and> tok (splitTokens l) 7 = en \<and>
             tok (splitTokens l) 5 \<noteq> Str ''HOH''"
  shows "fst (CifParser_atomLoop run i (st, p)) =
           \<lparr>nextResNum = runNumber c en st, lastChain = c, lastEntity = en\<rparr> \<and>
         (\<exists>as. atoms (soup (snd (CifParser_atomLoop run i (st, p)))) = atoms (soup p) @ as \<and>
               map a_resNum as = replicate (length run) (runNumber c en st))"
proof -
  from assms(1) obtain l rest where run: "run = l # rest" by (cases run) auto
  let ?st = "\<lparr>nextResNum = runNumber c en st, lastChain = c, lastEntity = en\<rparr>"
  from assms(2) run have l: "isAtomLine l" "tok (splitTokens l) 8 = Str ''.''"
    "tok (splitTokens l) 6 = c" "tok (splitTokens l) 7 = en" "tok (splitTokens l) 5 \<noteq> Str ''HOH''"
    by simp_all
  from sentinel_first[OF l(1,2), of i st p] l(3,4,5)
  obtain a where a: "fst (CifParser_atomLine i l (st, p)) = ?st"
    "atoms (soup (snd (CifParser_atomLine i l (st, p)))) = atoms (soup p) @ [a]"
    "a_resNum a = runNumber c en st"
    by (auto simp: runNumber_def advance_def)
  from a(1) have sp: "CifParser_atomLine i l (st, p) = (?st, snd (CifParser_atomLine i l (st, p)))"
    by (cases "CifParser_atomLine i l (st, p)") simp
  from assms(2) run have rest: "\<forall>l\<in>set rest. isAtomLine l \<and> tok (splitTokens l) 8 = Str ''.'' \<and>
             tok (splitTokens l) 6 = c \<and> tok (splitTokens l) 7 = en \<and>
             tok (splitTokens l) 5 \<noteq> Str ''HOH''" by simp
  from sentinel_run[OF rest, of ?st "i + 1" "snd (CifParser_atomLine i l (st, p))"]
  obtain as where as: "fst (CifParser_atomLoop rest (i + 1) (?st, snd (CifParser_atomLine i l (st, p)))) = ?st"
    "atoms (soup (snd (CifParser_atomLoop rest (i + 1) (?st, snd (CifParser_atomLine i l (st, p)))))) =
       atoms (soup (snd (CifParser_atomLine i l (st, p)))) @ as"
    "map a_resNum as = replicate (length rest) (runNumber c en st)"
    by auto
  have loop: "CifParser_atomLoop run i (st, p) =
          CifParser_atomLoop rest (i + 1) (?st, snd (CifParser_atomLine i l (st, p)))"
    using sp run by simp
  have "atoms (soup (snd (CifParser_atomLoop run i (st, p)))) = atoms (soup p) @ (a # as) \<and>
        map a_resNum (a # as) = replicate (length run) (runNumber c en st)"
    unfolding loop using as(2,3) a(2,3) run by simp
  moreover have "fst (CifParser_atomLoop run i (st, p)) = ?st"
    unfolding loop using as(1) .
  ultimately show ?thesis by blast
qed

lemma atomLoop_single: "CifParser_atomLoop [l] i sp = CifParser_atomLine i l sp"
  by simp

text \<open>
  Claim C3, amended. In the loop of \<open>CifParser.parseAtomLines\<close>, from any scan state
  whose counter is \<open>null\<close>, \<open>NaN\<close> or an integer below \<open>2^53\<close> in magnitude (where the
  source's doubles are exact): the atoms of a run of atom lines with the sentinel \<open>.\<close> as
  token 8, the same chain and entity tokens and a residue type that is not \<open>HOH\<close> all get
  one residue number (the counter, advanced by one before the first atom when its chain or
  entity differs from the last one's), and the scan state after the run holds that number,
  chain and entity; a sentinel atom of another chain that follows the run gets that number
  plus 1; an atom whose token 8 is not the sentinel gets the integer read from token 16 (the
  author's sequence number, not the label token 8; below \<open>2^53\<close> in magnitude), and the
  counter becomes that value plus 1; a sentinel atom of residue type \<open>HOH\<close> gets the
  counter plus 1 whatever its chain and entity are.
\<close>

theorem cif_residue_numbering:
  "(safeInt (nextResNum st) \<and> run \<noteq> [] \<and>
    (\<forall>l\<in>set run. isAtomLine l \<and> tok (splitTokens l) 8 = Str ''.'' \<and>
        tok (splitTokens l) 6 = c \<and> tok (splitTokens l) 7 = en \<and>
        tok (splitTokens l) 5 \<noteq> Str ''HOH'') \<longrightarrow>
      addedResNums run i st p = replicate (length run) (runNumber c en st) \<and>
      fst (CifParser_atomLoop run i (st, p)) =
        \<lparr>nextResNum = runNumber c en st, lastChain = c, lastEntity = en\<rparr>) \<and>
   (safeInt (nextResNum st) \<and> safeInt (runNumber c en st) \<and> run \<noteq> [] \<and>
    (\<forall>l\<in>set run. isAtomLine l \<and> tok (splitTokens l) 8 = Str ''.'' \<and>
        tok (splitTokens l) 6 = c \<and> tok (splitTokens l) 7 = en \<and>
        tok (splitTokens l) 5 \<noteq> Str ''HOH'') \<and>
    isAtomLine l \<and> tok (splitTokens l) 8 = Str ''.'' \<and> tok (splitTokens l) 6 \<noteq> c \<longrightarrow>
      addedResNums (run @ [l]) i st p =
        replicate (length run) (runNumber c en st) @ [jsInc (runNumber c en st)]) \<and>
   (safeInt (parseInt (tok (splitTokens l) 16)) \<and>
    isAtomLine l \<and> 3 < length (splitTokens l) \<and> tok (splitTokens l) 8 \<noteq> Str ''.'' \<longrightarrow>
      addedResNums [l] i st p = [parseInt (tok (splitTokens l) 16)] \<and>
      nextResNum (fst (CifParser_atomLoop [l] i (st, p))) = jsInc (parseInt (tok (splitTokens l) 16))) \<and>
   (safeInt (nextResNum st) \<and>
    isAtomLine l \<and> tok (splitTokens l) 8 = Str ''.'' \<and> tok (splitTokens l) 5 = Str ''HOH'' \<longrightarrow>
      addedResNums [l] i st p = [jsInc (nextResNum st)] \<and>
      nextResNum (fst (CifParser_atomLoop [l] i (st, p))) = jsInc (nextResNum st)) \<and>
   (safeInt (JInt n) \<longrightarrow> jsInc (JInt n) = JInt (n + 1) \<and> \<bar>n + 1\<bar> \<le> 9007199254740992)"
proof -
  have A: "addedResNums run i st p = replicate (length run) (runNumber c en st) \<and>
      fst (CifParser_atomLoop run i (st, p)) =
        \<lparr>nextResNum = runNumber c en st, lastChain = c, lastEntity = en\<rparr>"
    if "run \<noteq> []" and "\<forall>l\<in>set run. isAtomLine l \<and> tok (splitTokens l) 8 = Str ''.'' \<and>
        tok (splitTokens l) 6 = c \<and> tok (splitTokens l) 7 = en \<and>
        tok (splitTokens l) 5 \<noteq> Str ''HOH''"
    using sentinel_run_opened[OF that, of i st p] by (auto simp: addedResNums_def)
  have B: "addedResNums (run @ [l]) i st p =
        replicate (length run) (runNumber c en st) @ [jsInc (runNumber c en st)]"
    if r: "run \<noteq> []" "\<forall>l\<in>set run. isAtomLine l \<and> tok (splitTokens l) 8 = Str ''.'' \<and>
        tok (splitTokens l) 6 = c \<and> tok (splitTokens l) 7 = en \<and>
        tok (splitTokens l) 5 \<noteq> Str ''HOH''"
      and l: "isAtomLine l" "tok (splitTokens l) 8 = Str ''.''" "tok (splitTokens l) 6 \<noteq> c"
  proof -
    let ?st = "\<lparr>nextResNum = runNumber c en st, lastChain = c, lastEntity = en\<rparr>"
    let ?p = "snd (CifParser_atomLoop run i (st, p))"
    from sentinel_run_opened[OF r, of i st p]
    obtain as where as: "fst (CifParser_atomLoop run i (st, p)) = ?st"
      "atoms (soup ?p) = atoms (soup p) @ as"
      "map a_resNum as = replicate (length run) (runNumber c en st)" by auto
    from as(1) have sp: "CifParser_atomLoop run i (st, p) = (?st, ?p)"
      by (cases "CifParser_atomLoop run i (st, p)") simp
    from sentinel_first[OF l(1,2), of "i + length run" ?st ?p] l(3)
    obtain a where a: "atoms (soup (snd (CifParser_atomLine (i + length run) l (?st, ?p)))) =
        atoms (soup ?p) @ [a]" "a_resNum a = jsInc (runNumber c en st)"
      by auto
    have "CifParser_atomLoop (run @ [l]) i (st, p) =
            CifParser_atomLine (i + length run) l (CifParser_atomLoop run i (st, p))"
      by (simp add: CifParser_atomLoop_append)
    also have "\<dots> = CifParser_atomLine (i + length run) l (?st, ?p)"
      by (subst sp) (rule refl)
    finally have "atoms (soup (snd (CifParser_atomLoop (run @ [l]) i (st, p)))) =
                    atoms (soup p) @ as @ [a]"
      using a(1) as(2) by (simp only: append_assoc)
    with a(2) as(3) show ?thesis by (simp add: addedResNums_def)
  qed
  have C: "addedResNums [l] i st p = [parseInt (tok (splitTokens l) 16)] \<and>
      nextResNum (fst (CifParser_atomLoop [l] i (st, p))) = jsInc (parseInt (tok (splitTokens l) 16))"
    if "isAtomLine l" "3 < length (splitTokens l)" "tok (splitTokens l) 8 \<noteq> Str ''.''"
    using explicit_line[OF that, of i st p] by (auto simp: addedResNums_def)
  have D: "addedResNums [l] i st p = [jsInc (nextResNum st)] \<and>
      nextResNum (fst (CifParser_atomLoop [l] i (st, p))) = jsInc (nextResNum st)"
    if "isAtomLine l" "tok (splitTokens l) 8 = Str ''.''" "tok (splitTokens l) 5 = Str ''HOH''"
    using sentinel_first[OF that(1,2), of i st p] that(3)
    by (auto simp: addedResNums_def advance_def)
  have E: "jsInc (JInt n) = JInt (n + 1) \<and> \<bar>n + 1\<bar> \<le> 9007199254740992" if "safeInt (JInt n)"
    using that by (simp add: safeInt_def)
  from A B C D E show ?thesis by blast
qed

theorem cif_residue_numbering_witness:
  "addedResNums [cifLigandLine, cifLigandLine] 0 initNumbering (newParser emptySoup) =
     [JInt 1, JInt 1] \<and>
   addedResNums ([cifLigandLine, cifLigandLine] @ [cifLigandLineC]) 0 initNumbering (newParser emptySoup) =
     [JInt 1, JInt 1, JInt 2] \<and>
   addedResNums [cifExplicitLine] 0 initNumbering (newParser emptySoup) = [JInt 105] \<and>
   nextResNum (fst (CifParser_atomLoop [cifExplicitLine] 0 (initNumbering, newParser emptySoup))) =
     JInt 106 \<and>
   addedResNums [cifWaterLine] 7 \<lparr>nextResNum = JInt 4, lastChain = Str ''B'', lastEntity = Str ''2''\<rparr>
     (newParser emptySoup) = [JInt 5]"
proof -
  have hA: "safeInt (nextResNum initNumbering) \<and> [cifLigandLine, cifLigandLine] \<noteq> [] \<and>
    (\<forall>l\<in>set [cifLigandLine, cifLigandLine]. isAtomLine l \<and> tok (splitTokens l) 8 = Str ''.'' \<and>
        tok (splitTokens l) 6 = Str ''B'' \<and> tok (splitTokens l) 7 = Str ''2'' \<and>
        tok (splitTokens l) 5 \<noteq> Str ''HOH'')"
    by code_simp
  have hB: "safeInt (nextResNum initNumbering) \<and>
    safeInt (runNumber (Str ''B'') (Str ''2'') initNumbering) \<and>
    [cifLigandLine, cifLigandLine] \<noteq> [] \<and>
    (\<forall>l\<in>set [cifLigandLine, cifLigandLine]. isAtomLine l \<and> tok (splitTokens l) 8 = Str ''.'' \<and>
        tok (splitTokens l) 6 = Str ''B'' \<and> tok (splitTokens l) 7 = Str ''2'' \<and>
        tok (splitTokens l) 5 \<noteq> Str ''HOH'') \<and>
    isAtomLine cifLigandLineC \<and> tok (splitTokens cifLigandLineC) 8 = Str ''.'' \<and>
    tok (splitTokens cifLigandLineC) 6 \<noteq> Str ''B''"
    by code_simp
  have hC: "safeInt (parseInt (tok (splitTokens cifExplicitLine) 16)) \<and>
    isAtomLine cifExplicitLine \<and> 3 < length (splitTokens cifExplicitLine) \<and>
    tok (splitTokens cifExplicitLine) 8 \<noteq> Str ''.''"
    by code_simp
  have hD: "safeInt (nextResNum \<lparr>nextResNum = JInt 4, lastChain = Str ''B'', lastEntity = Str ''2''\<rparr>) \<and>
    isAtomLine cifWaterLine \<and> tok (splitTokens cifWaterLine) 8 = Str ''.'' \<and>
    tok (splitTokens cifWaterLine) 5 = Str ''HOH''"
    by code_simp
  note T = cif_residue_numbering[where run = "[cifLigandLine, cifLigandLine]" and c = "Str ''B''"
      and en = "Str ''2''" and i = 0 and st = initNumbering and p = "newParser emptySoup"
      and l = cifLigandLineC]
  note U = cif_residue_numbering[where i = 0 and st = initNumbering and p = "newParser emptySoup"
      and l = cifExplicitLine]
  note V = cif_residue_numbering[where i = 7
      and st = "\<lparr>nextResNum = JInt 4, lastChain = Str ''B'', lastEntity = Str ''2''\<rparr>"
      and p = "newParser emptySoup" and l = cifWaterLine]
  have eA: "replicate (length [cifLigandLine, cifLigandLine]) (runNumber (Str ''B'') (Str ''2'') initNumbering) =
      [JInt 1, JInt 1]" by code_simp
  have eB: "replicate (length [cifLigandLine, cifLigandLine]) (runNumber (Str ''B'') (Str ''2'') initNumbering) @
      [jsInc (runNumber (Str ''B'') (Str ''2'') initNumbering)] = [JInt 1, JInt 1, JInt 2]" by code_simp
  have eC: "[parseInt (tok (splitTokens cifExplicitLine) 16)] = [JInt 105]" by code_simp
  have eC': "jsInc (parseInt (tok (splitTokens cifExplicitLine) 16)) = JInt 106" by code_simp
  have eD: "[jsInc (nextResNum \<lparr>nextResNum = JInt 4, lastChain = Str ''B'', lastEntity = Str ''2''\<rparr>)] =
      [JInt 5]" by code_simp
  from T[THEN conjunct1, rule_format, OF hA, THEN conjunct1] eA
  have a: "addedResNums [cifLigandLine, cifLigandLine] 0 initNumbering (newParser emptySoup) =
     [JInt 1, JInt 1]" by (rule trans)
  from T[THEN conjunct2, THEN conjunct1, rule_format, OF hB] eB
  have b: "addedResNums ([cifLigandLine, cifLigandLine] @ [cifLigandLineC]) 0 initNumbering
     (newParser emptySoup) = [JInt 1, JInt 1, JInt 2]" by (rule trans)
  from U[THEN conjunct2, THEN conjunct2, THEN conjunct1, rule_format, OF hC, THEN conjunct1] eC
  have c: "addedResNums [cifExplicitLine] 0 initNumbering (newParser emptySoup) = [JInt 105]"
    by (rule trans)
  from U[THEN conjunct2, THEN conjunct2, THEN conjunct1, rule_format, OF hC, THEN conjunct2] eC'
  have c': "nextResNum (fst (CifParser_atomLoop [cifExplicitLine] 0 (initNumbering, newParser emptySoup))) =
     JInt 106" by (rule trans)
  from V[THEN conjunct2, THEN conjunct2, THEN conjunct2, THEN conjunct1, rule_format, OF hD,
      THEN conjunct1] eD
  have d: "addedResNums [cifWaterLine] 7 \<lparr>nextResNum = JInt 4, lastChain = Str ''B'', lastEntity = Str ''2''\<rparr>
     (newParser emptySoup) = [JInt 5]" by (rule trans)
  from a b c c' d show ?thesis by (simp only: simp_thms)
qed

text \<open>
  Claim C3 as stated ("adopts that integer") fails: the atom whose label token 8 is \<open>5\<close>
  and whose token 16 is \<open>105\<close> gets the residue number 105.
\<close>

theorem cif_residue_numbering_counterexample:
  "tok (splitTokens cifExplicitLine) 8 = Str ''5'' \<and>
   parseInt (tok (splitTokens cifExplicitLine) 8) = JInt 5 \<and>
   map a_resNum (atoms (soup (CifParser_parseAtomLines [cifExplicitLine] (newParser emptySoup)))) =
     [JInt 105]"
  by code_simp

section \<open>The fields of a PDB atom record\<close>

lemma take1_dropWhile: "take 1 (dropWhile P xs) = take 1 (filter (\<lambda>x. \<not> P x) xs)"
  by (induction xs) auto

lemma take1_deleteNumbers:
  "take 1 (deleteNumbers s) = take 1 (filter (\<lambda>ch. \<not> isDigit ch) s)"
proof (cases s)
  case Nil
  then show ?thesis by (simp add: deleteNumbers_def)
next
  case (Cons h t)
  show ?thesis
  proof (cases "isDigit h")
    case True
    with Cons have "deleteNumbers s = dropWhile isDigit t" by (simp add: deleteNumbers_def)
    with True Cons take1_dropWhile[of isDigit t] show ?thesis by simp
  next
    case False
    with Cons show ?thesis by (simp add: deleteNumbers_def)
  qed
qed

lemma deleteNumbers_no_digit:
  "\<forall>ch\<in>set s. \<not> isDigit ch \<Longrightarrow> deleteNumbers s = s"
proof -
  assume a: "\<forall>ch\<in>set s. \<not> isDigit ch"
  then have tw: "takeWhile (\<lambda>c. \<not> isDigit c) s = s"
    by (intro takeWhile_eq_all_conv[THEN iffD2]) simp
  from a have dw: "dropWhile (\<lambda>c. \<not> isDigit c) s = []" by simp
  show ?thesis unfolding deleteNumbers_def tw dw by simp
qed

lemma PdbParser_parseAtomLines_atoms:
  "atoms (soup (PdbParser_parseAtomLines ls p)) = atoms (soup p) @ map pdbAtom (filter isAtomLine ls)"
proof -
  have "pdbAtom = (\<lambda>l. inferElem (projr (PdbParser_readAtom l)))" by (rule ext) (simp add: pdbAtom_def)
  then show ?thesis by (simp add: PdbParser_parseAtomLines_def PdbParser_atomLoop_atoms)
qed

text \<open>
  Claim C8, amended. For every list of lines \<open>PdbParser.parseAtomLines\<close> hands one atom
  per atom line to the store, in order, and the atom of a line has its name from the
  columns 12 to 15, its b-factor from the columns 60 to 65 and its element from the columns
  76 and 77, all counted from 0 (they are the columns 13 to 16, 61 to 66 and 77 to 78
  counted from 1).
\<close>

theorem pdb_columns:
  "atoms (soup (PdbParser_parseAtomLines ls p)) = atoms (soup p) @ map pdbAtom (filter isAtomLine ls) \<and>
   a_atomType (pdbAtom line) = trim (cols line 12 15) \<and>
   a_bfactor (pdbAtom line) = parseFloat (Str (cols line 60 65)) \<and>
   a_elem (pdbAtom line) =
     (if deleteNumbers (trim (cols line 76 77)) = []
      then Str (take 1 (deleteNumbers (trim (cols line 12 15))))
      else Str (deleteNumbers (trim (cols line 76 77))))"
  by (simp add: PdbParser_parseAtomLines_atoms pdbAtom_def PdbParser_readAtom_def inferElem_def
        cols_def substr_def trim_idem)

theorem pdb_columns_witness:
  "atoms (soup (PdbParser_parseAtomLines [''REMARK'', pdbWideLine] (newParser emptySoup))) =
     [pdbAtom pdbWideLine] \<and>
   a_atomType (pdbAtom pdbWideLine) = ''HD11'' \<and>
   a_bfactor (pdbAtom pdbWideLine) = Fin 20 \<and>
   a_elem (pdbAtom pdbWideLine) = Str ''N''"
proof -
  note T = pdb_columns[of "[''REMARK'', pdbWideLine]" "newParser emptySoup" pdbWideLine]
  have e0: "atoms (soup (newParser emptySoup)) @ map pdbAtom (filter isAtomLine [''REMARK'', pdbWideLine]) =
     [pdbAtom pdbWideLine]"
  proof -
    have "filter isAtomLine [''REMARK'', pdbWideLine] = [pdbWideLine]" by code_simp
    moreover have "atoms (soup (newParser emptySoup)) = []" by code_simp
    ultimately show ?thesis by simp
  qed
  have e1: "trim (cols pdbWideLine 12 15) = ''HD11''" by code_simp
  have e2: "parseFloat (Str (cols pdbWideLine 60 65)) = Fin 20" by code_simp
  have e3: "(if deleteNumbers (trim (cols pdbWideLine 76 77)) = []
      then Str (take 1 (deleteNumbers (trim (cols pdbWideLine 12 15))))
      else Str (deleteNumbers (trim (cols pdbWideLine 76 77)))) = Str ''N''" by code_simp
  from T e0 e1 e2 e3 show ?thesis by (simp only: simp_thms)
qed

text \<open>
  Claim C8 as stated (the columns counted from 0) fails on a line with a four-character
  atom name: the name handed to the store is \<open>HD11\<close>, from the columns 12 to 15, where the
  columns 13 to 16 hold \<open>D11\<close>; and the element comes from the columns 76 and 77, which
  hold \<open>N1\<close>, where the columns 77 and 78 hold \<open>1\<close>.
\<close>

theorem pdb_columns_counterexample:
  "a_atomType (pdbAtom pdbWideLine) = ''HD11'' \<and>
   trim (cols pdbWideLine 13 16) = ''D11'' \<and>
   a_elem (pdbAtom pdbWideLine) = Str ''N'' \<and>
   cols pdbWideLine 76 77 = ''N1'' \<and>
   cols pdbWideLine 77 78 = ''1''"
  by code_simp

section \<open>The element of an atom\<close>

lemma CifParser_atomLine_elem:
  assumes "isAtomLine l" and "3 < length (splitTokens l)"
  shows "\<exists>a. atoms (soup (snd (CifParser_atomLine i l (st, p)))) = atoms (soup p) @ [a] \<and>
              a_elem a =
                (if tok (splitTokens l) 2 = Str []
                 then Str (take 1 (filter (\<lambda>ch. \<not> isDigit ch) (trim (removeQuotesStr (splitTokens l ! 3)))))
                 else tok (splitTokens l) 2)"
proof -
  obtain n st' where r: "resolveResNum (tok (splitTokens l) 8) (tok (splitTokens l) 6)
      (tok (splitTokens l) 7) (tok (splitTokens l) 5) (tok (splitTokens l) 16) st = (n, st')"
    by (cases "resolveResNum (tok (splitTokens l) 8) (tok (splitTokens l) 6)
      (tok (splitTokens l) 7) (tok (splitTokens l) 5) (tok (splitTokens l) 16) st")
  from assms(2) have t3: "tok (splitTokens l) 3 = Str (splitTokens l ! 3)" by (simp add: tok_def)
  show ?thesis
    using assms(1) r t3 take1_deleteNumbers[of "trim (removeQuotesStr (splitTokens l ! 3))"]
    by (simp add: CifParser_atomLine_def CifParser_readAtom_def inferElem_def substr_def)
qed

text \<open>
  Claim C6, amended. PDB: the element handed to \<open>addAtom\<close> is the trimmed element field
  (columns 76 and 77) without its first run of digits, when that is not empty; so a
  non-blank element field without a digit is handed over as it is, trimmed. When the field
  is blank (or nothing but one run of digits), the element is the first character of the
  trimmed atom name that is not a digit (empty when the name has none). mmCIF: the element
  token (token 2) is handed over as it is, and an empty one is replaced in the same way.
\<close>

theorem element_field:
  "(deleteNumbers (trim (cols line 76 77)) \<noteq> [] \<longrightarrow>
      a_elem (pdbAtom line) = Str (deleteNumbers (trim (cols line 76 77)))) \<and>
   (trim (cols line 76 77) \<noteq> [] \<and> (\<forall>ch\<in>set (trim (cols line 76 77)). \<not> isDigit ch) \<longrightarrow>
      a_elem (pdbAtom line) = Str (trim (cols line 76 77))) \<and>
   (deleteNumbers (trim (cols line 76 77)) = [] \<longrightarrow>
      a_elem (pdbAtom line) = Str (take 1 (filter (\<lambda>ch. \<not> isDigit ch) (trim (cols line 12 15))))) \<and>
   (trim (cols line 76 77) = [] \<longrightarrow>
      a_elem (pdbAtom line) = Str (take 1 (filter (\<lambda>ch. \<not> isDigit ch) (trim (cols line 12 15))))) \<and>
   (isAtomLine l \<and> 3 < length (splitTokens l) \<longrightarrow>
      (\<exists>a. atoms (soup (snd (CifParser_atomLine i l (st, p)))) = atoms (soup p) @ [a] \<and>
           a_elem a =
             (if tok (splitTokens l) 2 = Str []
              then Str (take 1 (filter (\<lambda>ch. \<not> isDigit ch) (trim (removeQuotesStr (splitTokens l ! 3)))))
              else tok (splitTokens l) 2)))"
proof -
  have e: "a_elem (pdbAtom line) =
     (if deleteNumbers (trim (cols line 76 77)) = []
      then Str (take 1 (deleteNumbers (trim (cols line 12 15))))
      else Str (deleteNumbers (trim (cols line 76 77))))"
    by (simp add: pdbAtom_def PdbParser_readAtom_def inferElem_def cols_def substr_def trim_idem)
  have A: "deleteNumbers (trim (cols line 76 77)) \<noteq> [] \<Longrightarrow>
      a_elem (pdbAtom line) = Str (deleteNumbers (trim (cols line 76 77)))"
    using e by simp
  have B: "a_elem (pdbAtom line) = Str (trim (cols line 76 77))"
    if "trim (cols line 76 77) \<noteq> []" "\<forall>ch\<in>set (trim (cols line 76 77)). \<not> isDigit ch"
    using e that deleteNumbers_no_digit[OF that(2)] by simp
  have C: "deleteNumbers (trim (cols line 76 77)) = [] \<Longrightarrow>
      a_elem (pdbAtom line) = Str (take 1 (filter (\<lambda>ch. \<not> isDigit ch) (trim (cols line 12 15))))"
    using e take1_deleteNumbers[of "trim (cols line 12 15)"] by simp
  have "deleteNumbers [] = []" by (simp add: deleteNumbers_def)
  then have D: "trim (cols line 76 77) = [] \<Longrightarrow>
      a_elem (pdbAtom line) = Str (take 1 (filter (\<lambda>ch. \<not> isDigit ch) (trim (cols line 12 15))))"
    using C by simp
  note E = CifParser_atomLine_elem[of l i st p]
  from A B C D E show ?thesis by blast
qed

theorem element_field_witness:
  "a_elem (pdbAtom pdbPlainLine) = Str ''N'' \<and>
   a_elem (pdbAtom pdbBlankElementLine) = Str ''H'' \<and>
   a_elem (pdbAtom pdbDigitElementLine) = Str ''N'' \<and>
   map a_elem (atoms (soup (snd (CifParser_atomLine 0 cifElementLine (initNumbering, newParser emptySoup))))) =
     [Str ''N1'']"
proof -
  have h1: "trim (cols pdbPlainLine 76 77) \<noteq> [] \<and> (\<forall>ch\<in>set (trim (cols pdbPlainLine 76 77)). \<not> isDigit ch)"
    by code_simp
  have e1: "Str (trim (cols pdbPlainLine 76 77)) = Str ''N''" by code_simp
  from element_field[where line = pdbPlainLine, THEN conjunct2, THEN conjunct1, rule_format, OF h1] e1
  have a: "a_elem (pdbAtom pdbPlainLine) = Str ''N''" by (rule trans)
  have h2: "trim (cols pdbBlankElementLine 76 77) = []" by code_simp
  have e2: "Str (take 1 (filter (\<lambda>ch. \<not> isDigit ch) (trim (cols pdbBlankElementLine 12 15)))) = Str ''H''"
    by code_simp
  from element_field[where line = pdbBlankElementLine, THEN conjunct2, THEN conjunct2, THEN conjunct2,
      THEN conjunct1, rule_format, OF h2] e2
  have b: "a_elem (pdbAtom pdbBlankElementLine) = Str ''H''" by (rule trans)
  have h3: "deleteNumbers (trim (cols pdbDigitElementLine 76 77)) \<noteq> []" by code_simp
  have e3: "Str (deleteNumbers (trim (cols pdbDigitElementLine 76 77))) = Str ''N''" by code_simp
  from element_field[where line = pdbDigitElementLine, THEN conjunct1, rule_format, OF h3] e3
  have c: "a_elem (pdbAtom pdbDigitElementLine) = Str ''N''" by (rule trans)
  have h4: "isAtomLine cifElementLine \<and> 3 < length (splitTokens cifElementLine)" by code_simp
  have e4: "(if tok (splitTokens cifElementLine) 2 = Str []
              then Str (take 1 (filter (\<lambda>ch. \<not> isDigit ch)
                     (trim (removeQuotesStr (splitTokens cifElementLine ! 3)))))
              else tok (splitTokens cifElementLine) 2) = Str ''N1''" by code_simp
  from element_field[where l = cifElementLine and i = 0 and st = initNumbering and p = "newParser emptySoup",
      THEN conjunct2, THEN conjunct2, THEN conjunct2, THEN conjunct2, rule_format, OF h4]
  obtain x where x: "atoms (soup (snd (CifParser_atomLine 0 cifElementLine (initNumbering, newParser emptySoup)))) =
      atoms (soup (newParser emptySoup)) @ [x]"
    "a_elem x = (if tok (splitTokens cifElementLine) 2 = Str []
              then Str (take 1 (filter (\<lambda>ch. \<not> isDigit ch)
                     (trim (removeQuotesStr (splitTokens cifElementLine ! 3)))))
              else tok (splitTokens cifElementLine) 2)"
    by blast
  have "atoms (soup (newParser emptySoup)) = []" by code_simp
  with x e4 have d: "map a_elem (atoms (soup (snd (CifParser_atomLine 0 cifElementLine
      (initNumbering, newParser emptySoup))))) = [Str ''N1'']"
    by simp
  from a b c d show ?thesis by (simp only: simp_thms)
qed

text \<open>
  Claim C6 as stated ("verbatim modulo whitespace trimming") fails in the PDB parser: the
  element field \<open>N1\<close> is handed over as \<open>N\<close>.
\<close>

theorem element_field_counterexample:
  "trim (cols pdbDigitElementLine 76 77) = ''N1'' \<and>
   map a_elem (atoms (soup (PdbParser_parseAtomLines [pdbDigitElementLine] (newParser emptySoup)))) =
     [Str ''N'']"
  by code_simp

end
